theory Spec2Isabelle
  imports Main "HOL-Library.Multiset"
begin

text \<open>
  A shallow embedding of the rule-convergence toolkit: the text converter
  (\<^verbatim>\<open>zdd_binary_to_text.py\<close>), the CSV analyser (\<^verbatim>\<open>tools/zdd_to_csv_correct.py\<close>),
  \<^verbatim>\<open>parse_assignment\<close> of \<^verbatim>\<open>summarize_agreement.py\<close>, \<^verbatim>\<open>compute_cohens_kappa\<close> of
  \<^verbatim>\<open>analyze_evaluations.py\<close> and \<^verbatim>\<open>save_batch\<close> of \<^verbatim>\<open>batch_evaluation_manager.py\<close>.
  Python integers are \<open>int\<close>, strings are \<open>string\<close>, exceptions are values of
  \<open>py_error\<close> returned on the left of a sum, dictionaries are association lists in
  insertion order, and the file system, the log and the standard output are
  fields of an explicit \<open>world\<close> that every effectful function takes and returns.
\<close>


section \<open>Python values used by the scripts\<close>

type_synonym path = "string list"

text \<open>
  A \<^verbatim>\<open>pathlib.Path\<close> is the list of its components. The text of an exception or of
  a printed line is a constructor with the values that the f-string interpolates.
\<close>

datatype message =
    BinaryFileNotFound path
  | NoBinaryFilesProvided
  | NoZddBinFilesFound path
  | WitnessDirNotFound path
  | EmptyName path
  | InvalidLiteral string
  | EmptySequence
  | MissingKey

datatype py_error =
    FileNotFoundError message
  | ValueError message
  | KeyError message
  | OtherError string

subsection \<open>Decimal rendering of integers: \<open>str(n)\<close>\<close>

definition digit_char :: "nat \<Rightarrow> char" where
  "digit_char d = ''0123456789'' ! d"

fun str_nat :: "nat \<Rightarrow> string" where
  "str_nat n = (if n < 10 then [digit_char n] else str_nat (n div 10) @ [digit_char (n mod 10)])"

declare str_nat.simps [simp del]

definition py_str :: "int \<Rightarrow> string" where
  "py_str i = (if i < 0 then CHR ''-'' # str_nat (nat (- i)) else str_nat (nat i))"

subsection \<open>Parsing of integers: \<open>int(s)\<close>\<close>

text \<open>
  \<^verbatim>\<open>int\<close> of a string strips white space at both ends, takes an optional sign and then
  decimal digits, where single underscores may stand between digits; anything else is a
  \<^verbatim>\<open>ValueError\<close>. \<^verbatim>\<open>str.strip\<close> with an argument removes the given characters from both
  ends, and without one removes white space. Characters are bytes here: the white space
  and the digits outside ASCII that Python also accepts are not modelled.
\<close>

definition py_whitespace :: "char list" where
  "py_whitespace = [CHR '' '', CHR 0x09, CHR 0x0A, CHR 0x0B, CHR 0x0C, CHR 0x0D,
                    CHR 0x1C, CHR 0x1D, CHR 0x1E, CHR 0x1F]"

definition strip_chars :: "char list \<Rightarrow> string \<Rightarrow> string" where
  "strip_chars cs s =
     rev (dropWhile (\<lambda>c. c \<in> set cs) (rev (dropWhile (\<lambda>c. c \<in> set cs) s)))"

definition py_strip :: "string \<Rightarrow> string" where
  "py_strip s = strip_chars py_whitespace s"

definition digit_val :: "char \<Rightarrow> nat option" where
  "digit_val c = (if c \<in> set ''0123456789'' then Some (of_char c - 48) else None)"

fun int_digits :: "nat \<Rightarrow> string \<Rightarrow> nat option" where
  "int_digits acc [] = Some acc"
| "int_digits acc [c] =
     (case digit_val c of None \<Rightarrow> None | Some v \<Rightarrow> Some (10 * acc + v))"
| "int_digits acc (c # d # ds) =
     (if c = CHR ''_''
      then (case digit_val d of None \<Rightarrow> None | Some v \<Rightarrow> int_digits (10 * acc + v) ds)
      else (case digit_val c of None \<Rightarrow> None | Some v \<Rightarrow> int_digits (10 * acc + v) (d # ds)))"

definition py_int :: "string \<Rightarrow> py_error + int" where
  "py_int s =
     (let t = py_strip s;
          neg = (case t of [] \<Rightarrow> False | c # _ \<Rightarrow> c = CHR ''-'');
          u = (case t of [] \<Rightarrow> [] | c # r \<Rightarrow> if c = CHR ''-'' \<or> c = CHR ''+'' then r else t)
      in case u of
           [] \<Rightarrow> Inl (ValueError (InvalidLiteral s))
         | c # cs \<Rightarrow>
             (case digit_val c of
                None \<Rightarrow> Inl (ValueError (InvalidLiteral s))
              | Some v \<Rightarrow>
                  (case int_digits v cs of
                     None \<Rightarrow> Inl (ValueError (InvalidLiteral s))
                   | Some n \<Rightarrow> Inr (if neg then - int n else int n))))"

text \<open>The characters of a decimal numeral, for the proofs about \<open>str\<close> and \<open>int\<close>.\<close>

definition is_digit :: "char \<Rightarrow> bool" where
  "is_digit c = (digit_val c \<noteq> None)"

definition int_char :: "char \<Rightarrow> bool" where
  "int_char c = (is_digit c \<or> c = CHR ''-'')"

subsection \<open>\<open>str.join\<close> and \<open>str.split\<close>\<close>

fun join :: "string \<Rightarrow> string list \<Rightarrow> string" where
  "join sep [] = []"
| "join sep [x] = x"
| "join sep (x # y # ys) = x @ sep @ join sep (y # ys)"

fun split_on :: "char \<Rightarrow> string \<Rightarrow> string list" where
  "split_on sep [] = [[]]"
| "split_on sep (c # cs) =
     (if c = sep then [] # split_on sep cs
      else (let r = split_on sep cs in (c # hd r) # tl r))"



subsection \<open>The text of one array and \<open>parse_assignment\<close>\<close>

text \<open>The f-string \<^verbatim>\<open>f"[{','.join(map(str, array))}]"\<close>, used by every exporter.\<close>

definition array_text :: "int list \<Rightarrow> string" where
  "array_text array = ''['' @ join '','' (map py_str array) @ '']''"

text \<open>The list comprehension \<^verbatim>\<open>[int(x.strip()) for x in parts]\<close>: the first failure is raised.\<close>

fun int_of_parts :: "string list \<Rightarrow> py_error + int list" where
  "int_of_parts [] = Inr []"
| "int_of_parts (x # xs) =
     (case py_int (py_strip x) of
        Inl e \<Rightarrow> Inl e
      | Inr v \<Rightarrow> (case int_of_parts xs of Inl e \<Rightarrow> Inl e | Inr vs \<Rightarrow> Inr (v # vs)))"

definition parse_assignment :: "string \<Rightarrow> py_error + int list" where
  "parse_assignment array_sig =
     (let clean = strip_chars ''[]'' array_sig
      in if clean = [] then Inr [] else int_of_parts (split_on CHR '','' clean))"

text \<open>
  The lines of a text: each line ends at a line feed, which is not part of the line; a
  last line without a line feed counts when it is not empty (\<^verbatim>\<open>str.splitlines\<close> on a text
  whose only line boundary is the line feed).
\<close>

fun file_lines :: "string \<Rightarrow> string list" where
  "file_lines [] = []"
| "file_lines (c # cs) =
     (if c = CHR 0x0A then [] # file_lines cs
      else (case file_lines cs of [] \<Rightarrow> [[c]] | l # ls \<Rightarrow> (c # l) # ls))"

section \<open>The world: files, log and standard output\<close>

datatype node = File string | Dir

datatype log_event =
    InfoConverting string
  | InfoConvertedTo path
  | InfoConvertingFiles nat
  | WarningFileNotFound path
  | InfoAddedArrays nat string
  | InfoConvertedFiles nat path
  | InfoWroteArrays nat path

datatype out_line =
    PrintConvertedJob path path
  | PrintConverted path
  | PrintConvertedDirectory path
  | PrintNotFileOrDirectory path
  | PrintError py_error

record world =
  files :: "path \<rightharpoonup> node"
  log :: "log_event list"
  stdout :: "out_line list"

definition logger :: "log_event \<Rightarrow> world \<Rightarrow> world" where
  "logger ev w = w\<lparr>log := log w @ [ev]\<rparr>"

definition print :: "out_line \<Rightarrow> world \<Rightarrow> world" where
  "print ln w = w\<lparr>stdout := stdout w @ [ln]\<rparr>"

definition path_exists :: "world \<Rightarrow> path \<Rightarrow> bool" where
  "path_exists w p = (files w p \<noteq> None)"

definition is_file :: "world \<Rightarrow> path \<Rightarrow> bool" where
  "is_file w p = (case files w p of Some (File _) \<Rightarrow> True | _ \<Rightarrow> False)"

definition is_dir :: "world \<Rightarrow> path \<Rightarrow> bool" where
  "is_dir w p = (case files w p of Some Dir \<Rightarrow> True | _ \<Rightarrow> False)"

definition path_name :: "path \<Rightarrow> string" where
  "path_name p = (if p = [] then [] else last p)"

definition path_parent :: "path \<Rightarrow> path" where
  "path_parent p = butlast p"

definition path_join :: "path \<Rightarrow> string \<Rightarrow> path" where
  "path_join p s = p @ [s]"

text \<open>
  \<^verbatim>\<open>Path.suffix\<close>: the part of the name from its last dot on, when that dot is neither the
  first nor the last character of the name; \<^verbatim>\<open>Path.with_suffix\<close> replaces it, and raises on a
  path with an empty name.
\<close>

definition path_suffix :: "path \<Rightarrow> string" where
  "path_suffix p =
     (let name = path_name p;
          after = rev (takeWhile (\<lambda>c. c \<noteq> CHR ''.'') (rev name))
      in if CHR ''.'' \<in> set name \<and> after \<noteq> [] \<and> length after + 1 < length name
         then CHR ''.'' # after else [])"

definition with_suffix :: "path \<Rightarrow> string \<Rightarrow> py_error + path" where
  "with_suffix p suffix =
     (let name = path_name p
      in if name = [] then Inl (ValueError (EmptyName p))
         else Inr (butlast p @ [take (length name - length (path_suffix p)) name @ suffix]))"

text \<open>
  A file opened with mode \<^verbatim>\<open>'w'\<close> is created empty or truncated; \<^verbatim>\<open>f.write\<close> appends to
  it. The text written so far is the file's content at every moment (buffering is not
  modelled).
\<close>

definition truncate_file :: "path \<Rightarrow> world \<Rightarrow> world" where
  "truncate_file p w = w\<lparr>files := (files w)(p \<mapsto> File [])\<rparr>"

definition content :: "world \<Rightarrow> path \<Rightarrow> string" where
  "content w p = (case files w p of Some (File t) \<Rightarrow> t | _ \<Rightarrow> [])"

definition fwrite :: "path \<Rightarrow> string \<Rightarrow> world \<Rightarrow> world" where
  "fwrite p t w = w\<lparr>files := (files w)(p \<mapsto> File (content w p @ t))\<rparr>"

section \<open>The decoded structure and what the scripts import\<close>

record ZDDStructure =
  magic_number :: int
  arrays :: "int list list"

text \<open>
  What the converter takes from outside its own file: \<^verbatim>\<open>ZDDParser(path).load()\<close>, which
  reads the file system at a path; the operating system's answer to opening a file for
  writing (\<open>None\<close> when it opens); \<^verbatim>\<open>Path.glob\<close> with its pattern; and
  \<^verbatim>\<open>convert_witness_export_directory\<close> of the witness-export converter.
\<close>

record env =
  parser_load :: "world \<Rightarrow> path \<Rightarrow> py_error + ZDDStructure"
  open_w :: "world \<Rightarrow> path \<Rightarrow> py_error option"
  glob :: "world \<Rightarrow> path \<Rightarrow> string \<Rightarrow> path list"
  convert_witness_export_directory :: "world \<Rightarrow> path \<Rightarrow> (py_error + path) \<times> world"

section \<open>\<^verbatim>\<open>zdd_binary_to_text.py\<close>\<close>

text \<open>A function that may raise returns the exception or its value, and the world it leaves.\<close>

type_synonym 'a result = "(py_error + 'a) \<times> world"

definition write_arrays_to_text ::
  "env \<Rightarrow> int list list \<Rightarrow> path \<Rightarrow> world \<Rightarrow> unit result" where
  "write_arrays_to_text e arrs output_file w =
     (case open_w e w output_file of
        Some err \<Rightarrow> (Inl err, w)
      | None \<Rightarrow>
          (let w1 = fold (\<lambda>array. fwrite output_file (array_text array @ [CHR 0x0A])) arrs
                      (truncate_file output_file w)
           in (Inr (), logger (InfoWroteArrays (length arrs) output_file) w1)))"

definition convert_binary_to_text ::
  "env \<Rightarrow> path \<Rightarrow> path option \<Rightarrow> world \<Rightarrow> path result" where
  "convert_binary_to_text e binary_file output_file w =
     (if \<not> path_exists w binary_file
      then (Inl (FileNotFoundError (BinaryFileNotFound binary_file)), w)
      else
        (let w1 = logger (InfoConverting (path_name binary_file)) w
         in case parser_load e w1 binary_file of
              Inl err \<Rightarrow> (Inl err, w1)
            | Inr structure \<Rightarrow>
                (case (case output_file of
                         None \<Rightarrow> with_suffix binary_file ''.txt''
                       | Some p \<Rightarrow> Inr p) of
                   Inl err \<Rightarrow> (Inl err, w1)
                 | Inr out \<Rightarrow>
                     (case write_arrays_to_text e (arrays structure) out w1 of
                        (Inl err, w2) \<Rightarrow> (Inl err, w2)
                      | (Inr _, w2) \<Rightarrow> (Inr out, logger (InfoConvertedTo out) w2)))))"

text \<open>What the loop of \<^verbatim>\<open>convert_multiple_binary_files\<close> writes for one parsed file.\<close>

definition write_zdd_section :: "path \<Rightarrow> nat \<Rightarrow> path \<Rightarrow> ZDDStructure \<Rightarrow> world \<Rightarrow> world" where
  "write_zdd_section output_file i binary_file structure w =
     (let w1 = fwrite output_file
                 (''# ZDD '' @ py_str (int i + 1) @ '': '' @ path_name binary_file @ [CHR 0x0A]) w;
          w2 = fwrite output_file
                 (''# Magic: '' @ py_str (magic_number structure) @ [CHR 0x0A]) w1;
          w3 = fwrite output_file
                 (''# Arrays: '' @ py_str (int (length (arrays structure))) @ [CHR 0x0A]) w2;
          w4 = fwrite output_file (''#'' @ [CHR 0x0A]) w3;
          w5 = fold (\<lambda>array. fwrite output_file (array_text array @ [CHR 0x0A]))
                 (arrays structure) w4;
          w6 = fwrite output_file (''#'' @ [CHR 0x0A]) w5;
          w7 = fwrite output_file
                 (''# End of ZDD '' @ py_str (int i + 1) @ [CHR 0x0A]) w6;
          w8 = fwrite output_file (''#'' @ [CHR 0x0A]) w7
      in logger (InfoAddedArrays (length (arrays structure)) (path_name binary_file)) w8)"

text \<open>The lines of that section, for the statements below: four comment lines, the arrays, three comment lines.\<close>

definition zdd_section_lines :: "nat \<Rightarrow> path \<Rightarrow> ZDDStructure \<Rightarrow> string list" where
  "zdd_section_lines i binary_file structure =
     [''# ZDD '' @ py_str (int i + 1) @ '': '' @ path_name binary_file,
      ''# Magic: '' @ py_str (magic_number structure),
      ''# Arrays: '' @ py_str (int (length (arrays structure))),
      ''#'']
     @ map array_text (arrays structure)
     @ [''#'', ''# End of ZDD '' @ py_str (int i + 1), ''#'']"

text \<open>
  The loop over \<^verbatim>\<open>enumerate(binary_files)\<close>: a file that does not exist is logged as a
  warning and skipped; an exception of the parser leaves the loop.
\<close>

fun convert_loop :: "env \<Rightarrow> path \<Rightarrow> (nat \<times> path) list \<Rightarrow> world \<Rightarrow> py_error option \<times> world" where
  "convert_loop e output_file [] w = (None, w)"
| "convert_loop e output_file ((i, binary_file) # rest) w =
     (if \<not> path_exists w binary_file
      then convert_loop e output_file rest (logger (WarningFileNotFound binary_file) w)
      else
        (case parser_load e w binary_file of
           Inl err \<Rightarrow> (Some err, w)
         | Inr structure \<Rightarrow>
             convert_loop e output_file rest
               (write_zdd_section output_file i binary_file structure w)))"

definition convert_multiple_binary_files ::
  "env \<Rightarrow> path list \<Rightarrow> path option \<Rightarrow> world \<Rightarrow> path result" where
  "convert_multiple_binary_files e binary_files output_file w =
     (if binary_files = [] then (Inl (ValueError NoBinaryFilesProvided), w)
      else
        (let w1 = logger (InfoConvertingFiles (length binary_files)) w;
             out = (case output_file of
                      None \<Rightarrow> path_join (path_parent (hd binary_files)) ''zdd_vectors.txt''
                    | Some p \<Rightarrow> p)
         in case open_w e w1 out of
              Some err \<Rightarrow> (Inl err, w1)
            | None \<Rightarrow>
                (case convert_loop e out (enumerate 0 binary_files) (truncate_file out w1) of
                   (Some err, w2) \<Rightarrow> (Inl err, w2)
                 | (None, w2) \<Rightarrow>
                     (Inr out, logger (InfoConvertedFiles (length binary_files) out) w2))))"

definition convert_zdd_binary_file ::
  "env \<Rightarrow> path \<Rightarrow> path option \<Rightarrow> world \<Rightarrow> path result" where
  "convert_zdd_binary_file e binary_file output_file w =
     convert_binary_to_text e binary_file output_file w"

definition convert_zdd_binary_directory ::
  "env \<Rightarrow> path \<Rightarrow> path option \<Rightarrow> world \<Rightarrow> path result" where
  "convert_zdd_binary_directory e directory output_file w =
     (let binary_files = glob e w directory ''zdd*.bin''
      in if binary_files = [] then (Inl (FileNotFoundError (NoZddBinFilesFound directory)), w)
         else convert_multiple_binary_files e binary_files output_file w)"

definition convert_job_directory :: "env \<Rightarrow> path \<Rightarrow> world \<Rightarrow> (path \<times> path) result" where
  "convert_job_directory e job_dir w =
     (let witness_output_dir = path_join job_dir ''witness_output''
      in if \<not> path_exists w witness_output_dir
         then (Inl (FileNotFoundError (WitnessDirNotFound witness_output_dir)), w)
         else
           (case convert_witness_export_directory e w witness_output_dir of
              (Inl err, w1) \<Rightarrow> (Inl err, w1)
            | (Inr kelsen_data_file, w1) \<Rightarrow>
                (case convert_zdd_binary_directory e witness_output_dir None w1 of
                   (Inl err, w2) \<Rightarrow> (Inl err, w2)
                 | (Inr zdd_text_file, w2) \<Rightarrow> (Inr (kelsen_data_file, zdd_text_file), w2))))"

text \<open>
  The command line: the arguments after parsing, and the exit status of the process with
  the world it leaves. Every exception is caught, printed and turned into status 1.
\<close>

record args =
  args_input :: path
  args_output :: "path option"
  args_job :: bool

definition main :: "env \<Rightarrow> args \<Rightarrow> world \<Rightarrow> nat \<times> world" where
  "main e a w =
     (let input_path = args_input a; output_path = args_output a
      in if args_job a then
           (case convert_job_directory e input_path w of
              (Inl err, w1) \<Rightarrow> (1, print (PrintError err) w1)
            | (Inr (kelsen_file, zdd_file), w1) \<Rightarrow>
                (0, print (PrintConvertedJob kelsen_file zdd_file) w1))
         else if is_file w input_path then
           (case convert_zdd_binary_file e input_path output_path w of
              (Inl err, w1) \<Rightarrow> (1, print (PrintError err) w1)
            | (Inr r, w1) \<Rightarrow> (0, print (PrintConverted r) w1))
         else if is_dir w input_path then
           (case convert_zdd_binary_directory e input_path output_path w of
              (Inl err, w1) \<Rightarrow> (1, print (PrintError err) w1)
            | (Inr r, w1) \<Rightarrow> (0, print (PrintConvertedDirectory r) w1))
         else (1, print (PrintNotFileOrDirectory input_path) w))"

section \<open>\<^verbatim>\<open>tools/zdd_to_csv_correct.py\<close>\<close>

text \<open>
  A dictionary is the list of its items in insertion order, with distinct keys.
  \<open>dict_getitem\<close> is \<^verbatim>\<open>d[k]\<close>, which raises \<^verbatim>\<open>KeyError\<close> on a missing key, and \<open>dict_get\<close>
  is \<^verbatim>\<open>d.get(k, default)\<close>.
\<close>

type_synonym ('k, 'v) dict = "('k \<times> 'v) list"

definition dict_keys :: "('k, 'v) dict \<Rightarrow> 'k list" where
  "dict_keys d = map fst d"

definition dict_getitem :: "('k, 'v) dict \<Rightarrow> 'k \<Rightarrow> py_error + 'v" where
  "dict_getitem d k = (case map_of d k of None \<Rightarrow> Inl (KeyError MissingKey) | Some v \<Rightarrow> Inr v)"

definition dict_get :: "('k, 'v) dict \<Rightarrow> 'k \<Rightarrow> 'v \<Rightarrow> 'v" where
  "dict_get d k dflt = (case map_of d k of None \<Rightarrow> dflt | Some v \<Rightarrow> v)"

text \<open>
  \<^verbatim>\<open>d[k].append(v)\<close> on a \<^verbatim>\<open>defaultdict(list)\<close>: a new key is added last with the
  one-element list, a known key keeps its place and its list grows at the end.
\<close>

fun defaultdict_append :: "('k, 'v list) dict \<Rightarrow> 'k \<Rightarrow> 'v \<Rightarrow> ('k, 'v list) dict" where
  "defaultdict_append [] k v = [(k, [v])]"
| "defaultdict_append ((k', vs) # rest) k v =
     (if k' = k then (k', vs @ [v]) # rest else (k', vs) # defaultdict_append rest k v)"

text \<open>\<^verbatim>\<open>min\<close> and \<^verbatim>\<open>max\<close> of a list raise \<^verbatim>\<open>ValueError\<close> on the empty list.\<close>

fun py_min :: "int list \<Rightarrow> py_error + int" where
  "py_min [] = Inl (ValueError EmptySequence)"
| "py_min (x # xs) = Inr (fold min xs x)"

fun py_max :: "int list \<Rightarrow> py_error + int" where
  "py_max [] = Inl (ValueError EmptySequence)"
| "py_max (x # xs) = Inr (fold max xs x)"

text \<open>
  A row handed to \<^verbatim>\<open>csv.writer.writerow\<close> is the list of its cells; a CSV output is the list
  of the rows written, the header first. The bytes that \<^verbatim>\<open>csv.writer\<close> makes of a row are
  the library's matter and are not modelled.
\<close>

datatype cell = CInt int | CStr string

definition cell_int :: "cell \<Rightarrow> int" where
  "cell_int c = (case c of CInt n \<Rightarrow> n | CStr _ \<Rightarrow> 0)"

definition thesis_mapping :: "(int, string) dict" where
  "thesis_mapping =
     [(1, ''2020418''), (2, ''2021246''), (3, ''2021398''), (4, ''2021537''), (5, ''2023487''),
      (6, ''2025237''), (7, ''2025433''), (8, ''2029251''), (9, ''2030499''), (10, ''2030500''),
      (11, ''2030717'')]"

definition thesis_number_of :: "int \<Rightarrow> string" where
  "thesis_number_of zdd_id = dict_get thesis_mapping zdd_id (''unknown_'' @ py_str zdd_id)"

subsection \<open>\<open>generate_complete_csv\<close>\<close>

definition complete_header :: "cell list" where
  "complete_header =
     [CStr ''zdd_id'', CStr ''thesis_number'', CStr ''magic_number'', CStr ''array_index'',
      CStr ''array_length'', CStr ''array_elements'', CStr ''array_signature_sorted'',
      CStr ''element_position'', CStr ''element_value'']"

text \<open>The rows written so far and the two counters that the function prints at its end.\<close>

record export_state =
  rows :: "cell list list"
  total_arrays :: nat
  total_elements :: nat

definition complete_row ::
  "int \<Rightarrow> ZDDStructure \<Rightarrow> nat \<Rightarrow> int list \<Rightarrow> nat \<Rightarrow> int \<Rightarrow> cell list" where
  "complete_row zdd_id structure array_idx array element_pos element_value =
     [CInt zdd_id, CStr (thesis_number_of zdd_id), CInt (magic_number structure),
      CInt (int array_idx), CInt (int (length array)), CStr (array_text array),
      CStr (array_text (sort array)), CInt (int element_pos), CInt element_value]"

definition complete_element_step ::
  "int \<Rightarrow> ZDDStructure \<Rightarrow> nat \<Rightarrow> int list \<Rightarrow> nat \<times> int \<Rightarrow> export_state \<Rightarrow> export_state" where
  "complete_element_step zdd_id structure array_idx array pv st =
     st\<lparr>rows := rows st @ [complete_row zdd_id structure array_idx array (fst pv) (snd pv)],
        total_elements := total_elements st + 1\<rparr>"

definition complete_array_step ::
  "int \<Rightarrow> ZDDStructure \<Rightarrow> nat \<times> int list \<Rightarrow> export_state \<Rightarrow> export_state" where
  "complete_array_step zdd_id structure ia st =
     (let st1 = fold (complete_element_step zdd_id structure (fst ia) (snd ia))
                  (enumerate 0 (snd ia)) st
      in st1\<lparr>total_arrays := total_arrays st1 + 1\<rparr>)"

fun complete_zdd_loop ::
  "(int, ZDDStructure) dict \<Rightarrow> int list \<Rightarrow> export_state \<Rightarrow> py_error + export_state" where
  "complete_zdd_loop zdds [] st = Inr st"
| "complete_zdd_loop zdds (zdd_id # ids) st =
     (case dict_getitem zdds zdd_id of
        Inl err \<Rightarrow> Inl err
      | Inr structure \<Rightarrow>
          complete_zdd_loop zdds ids
            (fold (complete_array_step zdd_id structure) (enumerate 0 (arrays structure)) st))"

definition generate_complete_csv :: "(int, ZDDStructure) dict \<Rightarrow> py_error + export_state" where
  "generate_complete_csv zdds =
     complete_zdd_loop zdds (sort (dict_keys zdds))
       \<lparr>rows = [complete_header], total_arrays = 0, total_elements = 0\<rparr>"

subsection \<open>\<open>generate_array_summary_csv\<close>\<close>

definition summary_header :: "cell list" where
  "summary_header =
     [CStr ''zdd_id'', CStr ''thesis_number'', CStr ''magic_number'', CStr ''array_index'',
      CStr ''array_length'', CStr ''array_elements'', CStr ''array_signature_sorted'',
      CStr ''unique_elements'', CStr ''min_element'', CStr ''max_element'']"

definition summary_row :: "int \<Rightarrow> ZDDStructure \<Rightarrow> nat \<Rightarrow> int list \<Rightarrow> py_error + cell list" where
  "summary_row zdd_id structure array_idx array =
     (let unique_elements = length (remdups array)
      in case (if array \<noteq> [] then py_min array else Inr 0) of
           Inl err \<Rightarrow> Inl err
         | Inr min_element \<Rightarrow>
             (case (if array \<noteq> [] then py_max array else Inr 0) of
                Inl err \<Rightarrow> Inl err
              | Inr max_element \<Rightarrow>
                  Inr [CInt zdd_id, CStr (thesis_number_of zdd_id), CInt (magic_number structure),
                       CInt (int array_idx), CInt (int (length array)), CStr (array_text array),
                       CStr (array_text (sort array)), CInt (int unique_elements),
                       CInt min_element, CInt max_element]))"

fun summary_array_loop ::
  "int \<Rightarrow> ZDDStructure \<Rightarrow> (nat \<times> int list) list \<Rightarrow> cell list list \<Rightarrow> py_error + cell list list" where
  "summary_array_loop zdd_id structure [] out = Inr out"
| "summary_array_loop zdd_id structure ((array_idx, array) # rest) out =
     (case summary_row zdd_id structure array_idx array of
        Inl err \<Rightarrow> Inl err
      | Inr row \<Rightarrow> summary_array_loop zdd_id structure rest (out @ [row]))"

fun summary_zdd_loop ::
  "(int, ZDDStructure) dict \<Rightarrow> int list \<Rightarrow> cell list list \<Rightarrow> py_error + cell list list" where
  "summary_zdd_loop zdds [] out = Inr out"
| "summary_zdd_loop zdds (zdd_id # ids) out =
     (case dict_getitem zdds zdd_id of
        Inl err \<Rightarrow> Inl err
      | Inr structure \<Rightarrow>
          (case summary_array_loop zdd_id structure (enumerate 0 (arrays structure)) out of
             Inl err \<Rightarrow> Inl err
           | Inr out' \<Rightarrow> summary_zdd_loop zdds ids out'))"

definition generate_array_summary_csv :: "(int, ZDDStructure) dict \<Rightarrow> py_error + cell list list" where
  "generate_array_summary_csv zdds =
     summary_zdd_loop zdds (sort (dict_keys zdds)) [summary_header]"

subsection \<open>\<open>generate_pattern_analysis_csv\<close>\<close>

definition pattern_header :: "cell list" where
  "pattern_header =
     [CStr ''array_signature'', CStr ''frequency_across_zdds'', CStr ''zdd_occurrences'',
      CStr ''first_seen_zdd'', CStr ''array_length'', CStr ''unique_elements'']"

text \<open>
  The first loop: every array of every structure, in the order of \<^verbatim>\<open>self.zdds.items()\<close>,
  is filed under its sorted tuple.
\<close>

definition collect_array ::
  "int \<Rightarrow> nat \<times> int list \<Rightarrow> (int list, (int \<times> nat) list) dict \<Rightarrow> (int list, (int \<times> nat) list) dict" where
  "collect_array zdd_id ia pattern_occurrences =
     (let pattern = sort (snd ia)
      in defaultdict_append pattern_occurrences pattern (zdd_id, fst ia))"

definition collect_patterns ::
  "(int, ZDDStructure) dict \<Rightarrow> (int list, (int \<times> nat) list) dict" where
  "collect_patterns zdds =
     fold (\<lambda>item po. fold (collect_array (fst item)) (enumerate 0 (arrays (snd item))) po) zdds []"

definition pattern_row :: "int list \<times> (int \<times> nat) list \<Rightarrow> py_error + cell list" where
  "pattern_row item =
     (let pattern = fst item; occurrences = snd item;
          zdd_ids = map fst occurrences;
          unique_zdds = sort (remdups zdd_ids);
          array_signature = array_text pattern;
          frequency = length occurrences;
          zdd_occurrences = join '','' (map py_str unique_zdds)
      in case py_min unique_zdds of
           Inl err \<Rightarrow> Inl err
         | Inr first_seen \<Rightarrow>
             Inr [CStr array_signature, CInt (int frequency), CStr zdd_occurrences,
                  CInt first_seen, CInt (int (length pattern)),
                  CInt (int (length (remdups pattern)))])"

fun pattern_row_loop ::
  "(int list \<times> (int \<times> nat) list) list \<Rightarrow> cell list list \<Rightarrow> py_error + cell list list" where
  "pattern_row_loop [] out = Inr out"
| "pattern_row_loop (item # rest) out =
     (case pattern_row item of
        Inl err \<Rightarrow> Inl err
      | Inr row \<Rightarrow> pattern_row_loop rest (out @ [row]))"

text \<open>
  \<^verbatim>\<open>sorted(items, key=lambda x: len(x[1]), reverse=True)\<close> is stable: it is the stable sort
  by the negated key.
\<close>

definition generate_pattern_analysis_csv ::
  "(int, ZDDStructure) dict \<Rightarrow> py_error + cell list list" where
  "generate_pattern_analysis_csv zdds =
     pattern_row_loop
       (sort_key (\<lambda>x. - int (length (snd x))) (collect_patterns zdds))
       [pattern_header]"

subsection \<open>Closed forms of the three exports\<close>

text \<open>
  What the loops amount to, for the statements and proofs below: the rows of one array
  and of one structure in the per-element export, the rows of one structure in the
  summary export, the numbers of arrays and of elements of a collection, the arrays of a
  collection with where they occur, and the pattern table after sorting.
\<close>

definition array_rows :: "int \<Rightarrow> ZDDStructure \<Rightarrow> nat \<times> int list \<Rightarrow> cell list list" where
  "array_rows zdd_id structure ia =
     map (\<lambda>pv. complete_row zdd_id structure (fst ia) (snd ia) (fst pv) (snd pv))
       (enumerate 0 (snd ia))"

definition zdd_rows :: "(int, ZDDStructure) dict \<Rightarrow> int \<Rightarrow> cell list list" where
  "zdd_rows zdds zdd_id =
     (case map_of zdds zdd_id of
        None \<Rightarrow> []
      | Some structure \<Rightarrow>
          concat (map (array_rows zdd_id structure) (enumerate 0 (arrays structure))))"

definition count_arrays :: "(int, ZDDStructure) dict \<Rightarrow> nat" where
  "count_arrays zdds = sum_list (map (\<lambda>item. length (arrays (snd item))) zdds)"

definition count_elements :: "(int, ZDDStructure) dict \<Rightarrow> nat" where
  "count_elements zdds =
     sum_list (map (\<lambda>item. sum_list (map length (arrays (snd item)))) zdds)"

definition lookup :: "(int, ZDDStructure) dict \<Rightarrow> int \<Rightarrow> ZDDStructure" where
  "lookup zdds zdd_id = (case map_of zdds zdd_id of Some s \<Rightarrow> s | None \<Rightarrow> \<lparr>magic_number = 0, arrays = []\<rparr>)"

definition summary_cells :: "int \<Rightarrow> ZDDStructure \<Rightarrow> nat \<times> int list \<Rightarrow> cell list" where
  "summary_cells zdd_id structure ia =
     (case summary_row zdd_id structure (fst ia) (snd ia) of Inr row \<Rightarrow> row | Inl _ \<Rightarrow> [])"

definition summary_rows :: "(int, ZDDStructure) dict \<Rightarrow> int \<Rightarrow> cell list list" where
  "summary_rows zdds zdd_id =
     map (summary_cells zdd_id (lookup zdds zdd_id)) (enumerate 0 (arrays (lookup zdds zdd_id)))"

definition all_occurrences :: "(int, ZDDStructure) dict \<Rightarrow> (int \<times> nat \<times> int list) list" where
  "all_occurrences zdds =
     concat (map (\<lambda>item. map (\<lambda>ia. (fst item, ia)) (enumerate 0 (arrays (snd item)))) zdds)"

definition all_arrays :: "(int, ZDDStructure) dict \<Rightarrow> int list set" where
  "all_arrays zdds = (\<Union>item\<in>set zdds. set (arrays (snd item)))"

definition pattern_cells :: "int list \<times> (int \<times> nat) list \<Rightarrow> cell list" where
  "pattern_cells item = (case pattern_row item of Inr row \<Rightarrow> row | Inl _ \<Rightarrow> [])"

definition sorted_patterns :: "(int, ZDDStructure) dict \<Rightarrow> (int list \<times> (int \<times> nat) list) list" where
  "sorted_patterns zdds = sort_key (\<lambda>x. - int (length (snd x))) (collect_patterns zdds)"

section \<open>\<^verbatim>\<open>analyze_evaluations.py\<close>: \<open>compute_cohens_kappa\<close>\<close>

text \<open>
  One entry of the dictionary that \<^verbatim>\<open>load_batch_evaluations\<close> builds for a clause. A rating
  is a string, and it is truthy when it is not empty.
\<close>

record evaluation =
  rating :: string
  justification :: string
  thesis_id :: string
  thesis_title :: string

text \<open>\<^verbatim>\<open>set(eval1.keys()) & set(eval2.keys())\<close>, a set held as a list without repetition.\<close>

definition common_clauses :: "('k, 'v) dict \<Rightarrow> ('k, 'v) dict \<Rightarrow> 'k list" where
  "common_clauses eval1 eval2 =
     remdups (filter (\<lambda>k. k \<in> set (dict_keys eval2)) (dict_keys eval1))"

fun rating_loop ::
  "('k, 'a evaluation_scheme) dict \<Rightarrow> ('k, 'a evaluation_scheme) dict \<Rightarrow> 'k list \<Rightarrow>
   string list \<times> string list \<Rightarrow> py_error + string list \<times> string list" where
  "rating_loop eval1 eval2 [] acc = Inr acc"
| "rating_loop eval1 eval2 (clause_id # rest) acc =
     (case dict_getitem eval1 clause_id of
        Inl err \<Rightarrow> Inl err
      | Inr e1 \<Rightarrow>
          (case dict_getitem eval2 clause_id of
             Inl err \<Rightarrow> Inl err
           | Inr e2 \<Rightarrow>
               (let r1 = rating e1; r2 = rating e2
                in if r1 \<noteq> [] \<and> r2 \<noteq> []
                   then rating_loop eval1 eval2 rest (fst acc @ [r1], snd acc @ [r2])
                   else rating_loop eval1 eval2 rest acc)))"

text \<open>
  \<^verbatim>\<open>cohen_kappa_score\<close> is the statistics library's and is a parameter; clause ids are of
  any linearly ordered type, as \<^verbatim>\<open>sorted\<close> needs.
\<close>

definition compute_cohens_kappa ::
  "(string list \<Rightarrow> string list \<Rightarrow> 'f) \<Rightarrow>
   ('k::linorder, 'a evaluation_scheme) dict \<Rightarrow> ('k, 'a evaluation_scheme) dict \<Rightarrow>
   py_error + 'f option \<times> string list \<times> string list" where
  "compute_cohens_kappa cohen_kappa_score eval1 eval2 =
     (let common = common_clauses eval1 eval2
      in if common = [] then Inr (None, [], [])
         else
           (case rating_loop eval1 eval2 (sort common) ([], []) of
              Inl err \<Rightarrow> Inl err
            | Inr (ratings1, ratings2) \<Rightarrow>
                if ratings1 = [] then Inr (None, [], [])
                else Inr (Some (cohen_kappa_score ratings1 ratings2), ratings1, ratings2)))"

text \<open>The rating an evaluator gave a clause, empty when the clause is not among the keys.\<close>

definition rating_of :: "('k, 'a evaluation_scheme) dict \<Rightarrow> 'k \<Rightarrow> string" where
  "rating_of ev k = (case map_of ev k of None \<Rightarrow> [] | Some e \<Rightarrow> rating e)"

text \<open>A clause that both evaluators rated.\<close>

definition rated :: "('k, 'a evaluation_scheme) dict \<Rightarrow> ('k, 'a evaluation_scheme) dict \<Rightarrow> 'k \<Rightarrow> bool" where
  "rated eval1 eval2 k = (rating_of eval1 k \<noteq> [] \<and> rating_of eval2 k \<noteq> [])"

section \<open>\<^verbatim>\<open>batch_evaluation_manager.py\<close>: \<open>save_batch\<close>\<close>

text \<open>
  The batch index as \<^verbatim>\<open>batch_index.json\<close> holds it: each entry has its number, its thesis
  ids and a status per evaluator; whatever else an entry, the index or the batch data
  hold is the record's extension. \<open>dict_setitem\<close> is \<^verbatim>\<open>d[k] = v\<close>.
\<close>

fun dict_setitem :: "('k, 'v) dict \<Rightarrow> 'k \<Rightarrow> 'v \<Rightarrow> ('k, 'v) dict" where
  "dict_setitem [] k v = [(k, v)]"
| "dict_setitem ((k', v') # rest) k v =
     (if k' = k then (k', v) # rest else (k', v') # dict_setitem rest k v)"

record batch_entry =
  batch_number :: int
  thesis_ids :: "string list"
  status :: "(string, string) dict"

record 'e batch_index =
  total_batches :: int
  total_theses :: int
  batches :: "'e batch_entry_scheme list"

record batch_data =
  data_batch_number :: int
  data_evaluator :: string
  data_thesis_ids :: "string list"

text \<open>
  The manager: \<^verbatim>\<open>self.index\<close>, the index file as last written, and the batch files by
  evaluator directory and batch number. Failures of the file system are not modelled.
\<close>

record ('e, 'i, 'd) manager =
  index :: "('e, 'i) batch_index_scheme"
  index_file :: "('e, 'i) batch_index_scheme"
  batch_files :: "string \<times> int \<rightharpoonup> 'd batch_data_scheme"

definition save_index :: "('e, 'i, 'd) manager \<Rightarrow> ('e, 'i, 'd) manager" where
  "save_index m = m\<lparr>index_file := index m\<rparr>"

text \<open>The loop over \<^verbatim>\<open>self.index['batches']\<close>, which stops at the first entry it updates.\<close>

fun update_status ::
  "int \<Rightarrow> string \<Rightarrow> 'e batch_entry_scheme list \<Rightarrow> 'e batch_entry_scheme list" where
  "update_status batch_num evaluator_name [] = []"
| "update_status batch_num evaluator_name (batch # rest) =
     (if batch_number batch = batch_num
      then batch\<lparr>status := dict_setitem (status batch) evaluator_name ''completed''\<rparr> # rest
      else batch # update_status batch_num evaluator_name rest)"

definition save_batch ::
  "'d batch_data_scheme \<Rightarrow> string \<Rightarrow> ('e, 'i, 'd) manager \<Rightarrow>
   (string \<times> int) \<times> ('e, 'i, 'd) manager" where
  "save_batch data evaluator_name m =
     (let batch_num = data_batch_number data;
          output_file = (evaluator_name, batch_num);
          m1 = m\<lparr>batch_files := (batch_files m)(output_file \<mapsto> data)\<rparr>;
          m2 = m1\<lparr>index := (index m1)\<lparr>batches :=
                 update_status batch_num evaluator_name (batches (index m1))\<rparr>\<rparr>
      in (output_file, save_index m2))"

text \<open>Entry \<open>i\<close> is the first entry of the list with the batch number \<open>n\<close>.\<close>

definition first_entry :: "int \<Rightarrow> 'e batch_entry_scheme list \<Rightarrow> nat \<Rightarrow> bool" where
  "first_entry n bs i =
     (i < length bs \<and> batch_number (bs ! i) = n \<and> n \<notin> set (map batch_number (take i bs)))"

section \<open>The binary reader\<close>

text \<open>
  \<^verbatim>\<open>zdd_parser.ZDDParser\<close> is not among the sources; what follows is its contract as the
  spec words it. The layout of an integer field is left open by the spec and is the
  parameter \<open>rd\<close>, which takes one field from the front of the bytes or fails.
\<close>

type_synonym field_reader = "string \<Rightarrow> (int \<times> string) option"

text \<open>
  Modelled from the spec: the elements of one array (missing: the body of \<^verbatim>\<open>ZDDParser.load\<close>).
  An array of declared length \<open>n\<close> is \<open>n\<close> integer fields; the read fails when the bytes
  run out ("a declared array length exceeds remaining bytes").
\<close>

fun read_ints :: "field_reader \<Rightarrow> nat \<Rightarrow> string \<Rightarrow> (int list \<times> string) option" where
  "read_ints rd 0 bs = Some ([], bs)"
| "read_ints rd (Suc n) bs =
     (case rd bs of
        None \<Rightarrow> None
      | Some (v, bs1) \<Rightarrow>
          (case read_ints rd n bs1 of
             None \<Rightarrow> None
           | Some (vs, bs2) \<Rightarrow> Some (v # vs, bs2)))"

text \<open>
  Modelled from the spec: the sequence of arrays (missing: the body of \<^verbatim>\<open>ZDDParser.load\<close>).
  Each of the declared number of arrays is a length field followed by its elements
  ("a sequence of variable-length integer arrays", "arrays of arbitrary non-negative
  length (including empty arrays)").
\<close>

fun read_arrays :: "field_reader \<Rightarrow> nat \<Rightarrow> string \<Rightarrow> (int list list \<times> string) option" where
  "read_arrays rd 0 bs = Some ([], bs)"
| "read_arrays rd (Suc n) bs =
     (case rd bs of
        None \<Rightarrow> None
      | Some (len, bs1) \<Rightarrow>
          if len < 0 then None
          else
            (case read_ints rd (nat len) bs1 of
               None \<Rightarrow> None
             | Some (array, bs2) \<Rightarrow>
                 (case read_arrays rd n bs2 of
                    None \<Rightarrow> None
                  | Some (rest, bs3) \<Rightarrow> Some (array # rest, bs3))))"

text \<open>
  Modelled from the spec: \<^verbatim>\<open>ZDDParser.load\<close> (missing: \<^verbatim>\<open>zdd_parser.py\<close>). It "reads a magic
  number, a count, and a sequence of variable-length integer arrays from a byte stream"
  and produces the structure, or fails with a decoding error "if the file is truncated,
  the magic number is absent, or a declared array length exceeds remaining bytes".
\<close>

definition zdd_load :: "field_reader \<Rightarrow> string \<Rightarrow> py_error + ZDDStructure" where
  "zdd_load rd bs =
     (case rd bs of
        None \<Rightarrow> Inl (OtherError ''magic number absent'')
      | Some (magic, bs1) \<Rightarrow>
          (case rd bs1 of
             None \<Rightarrow> Inl (OtherError ''truncated header'')
           | Some (declared, bs2) \<Rightarrow>
               if declared < 0 then Inl (OtherError ''negative count'')
               else
                 (case read_arrays rd (nat declared) bs2 of
                    None \<Rightarrow> Inl (OtherError ''truncated arrays'')
                  | Some (arrs, rest) \<Rightarrow> Inr \<lparr>magic_number = magic, arrays = arrs\<rparr>)))"

text \<open>
  Modelled from the spec: the "count field read from the header" (missing:
  \<^verbatim>\<open>zdd_parser.py\<close>), the second field of the file, after the magic number.
\<close>

definition header_count :: "field_reader \<Rightarrow> string \<Rightarrow> int option" where
  "header_count rd bs =
     (case rd bs of
        None \<Rightarrow> None
      | Some (magic, bs1) \<Rightarrow> (case rd bs1 of None \<Rightarrow> None | Some (declared, bs2) \<Rightarrow> Some declared))"

text \<open>
  Modelled from the spec: one layout of a field for the examples (missing: the byte
  layout, which the spec leaves open): four bytes, least significant first, covering
  the 32-bit range that the spec asks for.
\<close>

definition read_u32le :: field_reader where
  "read_u32le bs =
     (case bs of
        b0 # b1 # b2 # b3 # rest \<Rightarrow>
          Some (int (of_char b0) + 256 * int (of_char b1) + 65536 * int (of_char b2)
                + 16777216 * int (of_char b3), rest)
      | _ \<Rightarrow> None)"

section \<open>Concrete inputs for the worked examples\<close>

text \<open>
  An environment in which every file opens for writing and nothing else is available,
  and a world with no files.
\<close>

definition test_env :: env where
  "test_env = \<lparr>parser_load = (\<lambda>w p. Inl (OtherError ''no parser'')),
               open_w = (\<lambda>w p. None),
               glob = (\<lambda>w d pat. []),
               convert_witness_export_directory = (\<lambda>w p. (Inl (OtherError ''no converter''), w))\<rparr>"

definition empty_world :: world where
  "empty_world = \<lparr>files = Map.empty, log = [], stdout = []\<rparr>"

text \<open>
  A decoded structure with an empty array, a parser that returns it for one file name,
  and a world in which that file exists.
\<close>

definition sample_structure :: ZDDStructure where
  "sample_structure = \<lparr>magic_number = 7, arrays = [[2, 7, 8], [], [1]]\<rparr>"

definition sample_env :: env where
  "sample_env = \<lparr>parser_load = (\<lambda>w p. if p = [''zdd_1.bin''] then Inr sample_structure
                                      else Inl (OtherError ''decoding error'')),
                 open_w = (\<lambda>w p. None),
                 glob = (\<lambda>w d pat. []),
                 convert_witness_export_directory =
                   (\<lambda>w p. (Inl (OtherError ''no converter''), w))\<rparr>"

definition sample_world :: world where
  "sample_world = \<lparr>files = [[''zdd_1.bin''] \<mapsto> File []], log = [], stdout = []\<rparr>"

text \<open>Two loaded structures, inserted under the numbers 2 and 1, each with an empty array.\<close>

definition sample_zdds :: "(int, ZDDStructure) dict" where
  "sample_zdds =
     [(2, \<lparr>magic_number = 9, arrays = [[8, 2], []]\<rparr>),
      (1, \<lparr>magic_number = 7, arrays = [[2, 8], [], [5]]\<rparr>)]"

text \<open>
  A file of the four-byte layout with magic number 7 and two arrays, \<open>[298]\<close> and the
  empty one; and a manager whose index has two pending batches, with the data of batch 2.
\<close>

definition sample_bytes :: string where
  "sample_bytes =
     [CHR 0x07, CHR 0x00, CHR 0x00, CHR 0x00,
      CHR 0x02, CHR 0x00, CHR 0x00, CHR 0x00,
      CHR 0x01, CHR 0x00, CHR 0x00, CHR 0x00,  CHR 0x2A, CHR 0x01, CHR 0x00, CHR 0x00,
      CHR 0x00, CHR 0x00, CHR 0x00, CHR 0x00]"

definition sample_index :: "(unit, unit) batch_index_scheme" where
  "sample_index =
     \<lparr>total_batches = 2, total_theses = 3,
      batches =
        [\<lparr>batch_number = 1, thesis_ids = [''2020418'', ''2021246''],
          status = [(''evaluator_1'', ''pending''), (''evaluator_2'', ''pending'')]\<rparr>,
         \<lparr>batch_number = 2, thesis_ids = [''2021398''],
          status = [(''evaluator_1'', ''pending''), (''evaluator_2'', ''pending'')]\<rparr>]\<rparr>"

definition sample_manager :: "(unit, unit, unit) manager" where
  "sample_manager =
     \<lparr>index = sample_index, index_file = sample_index, batch_files = Map.empty\<rparr>"

definition sample_data :: batch_data where
  "sample_data =
     \<lparr>data_batch_number = 2, data_evaluator = ''evaluator_1'', data_thesis_ids = [''2021398'']\<rparr>"

text \<open>
  The evaluations of two evaluators: clauses 1 and 3 are rated by both, clause 2 is not
  rated by the first and clause 4 is unknown to the first.
\<close>

definition sample_eval1 :: "(nat, evaluation) dict" where
  "sample_eval1 =
     [(3, \<lparr>rating = ''reject'', justification = [], thesis_id = ''2021246'', thesis_title = []\<rparr>),
      (1, \<lparr>rating = ''accept'', justification = [], thesis_id = ''2020418'', thesis_title = []\<rparr>),
      (2, \<lparr>rating = [], justification = [], thesis_id = ''2020418'', thesis_title = []\<rparr>)]"

definition sample_eval2 :: "(nat, evaluation) dict" where
  "sample_eval2 =
     [(1, \<lparr>rating = ''revise'', justification = [], thesis_id = ''2020418'', thesis_title = []\<rparr>),
      (2, \<lparr>rating = ''accept'', justification = [], thesis_id = ''2020418'', thesis_title = []\<rparr>),
      (3, \<lparr>rating = ''reject'', justification = [], thesis_id = ''2021246'', thesis_title = []\<rparr>),
      (4, \<lparr>rating = ''accept'', justification = [], thesis_id = ''2021246'', thesis_title = []\<rparr>)]"

section \<open>Integers and strings: printing, parsing, joining and splitting\<close>



lemma digit_val_digit_char: "d < 10 \<Longrightarrow> digit_val (digit_char d) = Some d"
proof -
  assume "d < 10"
  then have "d \<in> {0,1,2,3,4,5,6,7,8,9}" by auto
  then show ?thesis by (auto simp: digit_val_def digit_char_def)
qed


lemma is_digit_digit_char: "d < 10 \<Longrightarrow> is_digit (digit_char d)"
  by (simp add: is_digit_def digit_val_digit_char)

lemma is_digit_not_special:
  "is_digit c \<Longrightarrow> c \<noteq> CHR ''_'' \<and> c \<noteq> CHR ''-'' \<and> c \<noteq> CHR ''+'' \<and> c \<noteq> CHR '','' \<and> c \<noteq> CHR ''[''
     \<and> c \<noteq> CHR '']'' \<and> c \<noteq> CHR 0x0A \<and> c \<notin> set py_whitespace"
  by (auto simp: is_digit_def digit_val_def py_whitespace_def split: if_splits)

lemma int_digits_snoc:
  "list_all is_digit ds \<Longrightarrow> digit_val x = Some v \<Longrightarrow>
   int_digits acc (ds @ [x]) = map_option (\<lambda>a. 10 * a + v) (int_digits acc ds)"
proof (induction acc ds rule: int_digits.induct)
  case (1 acc)
  then show ?case by simp
next
  case (2 acc c)
  then show ?case using is_digit_not_special[of c] by (auto simp: is_digit_def)
next
  case (3 acc c d ds)
  then show ?case using is_digit_not_special[of c] by (auto simp: is_digit_def)
qed

lemma str_nat_digits: "list_all is_digit (str_nat n)"
  by (induction n rule: str_nat.induct) (subst str_nat.simps, simp add: is_digit_digit_char)

lemma str_nat_nonempty: "str_nat n \<noteq> []"
  by (subst str_nat.simps) simp

lemma int_digits_str_nat: "int_digits 0 (str_nat n) = Some n"
proof (induction n rule: str_nat.induct)
  case (1 n)
  show ?case
  proof (cases "n < 10")
    case True
    then show ?thesis by (subst str_nat.simps) (simp add: digit_val_digit_char)
  next
    case False
    have "int_digits 0 (str_nat (n div 10) @ [digit_char (n mod 10)]) =
          map_option (\<lambda>a. 10 * a + n mod 10) (int_digits 0 (str_nat (n div 10)))"
      by (rule int_digits_snoc) (simp_all add: str_nat_digits digit_val_digit_char)
    with False 1 show ?thesis by (subst str_nat.simps) simp
  qed
qed

lemma int_digits_head:
  "is_digit c \<Longrightarrow> int_digits 0 (c # cs) = int_digits (the (digit_val c)) cs"
  using is_digit_not_special[of c]
  by (cases cs) (auto simp: is_digit_def)

lemma strip_chars_id:
  "s \<noteq> [] \<Longrightarrow> hd s \<notin> set cs \<Longrightarrow> last s \<notin> set cs \<Longrightarrow> strip_chars cs s = s"
proof -
  assume a: "s \<noteq> []" "hd s \<notin> set cs" "last s \<notin> set cs"
  then have 1: "dropWhile (\<lambda>c. c \<in> set cs) s = s" by (cases s) auto
  from a have "hd (rev s) \<notin> set cs" by (simp add: hd_rev)
  with a have 2: "dropWhile (\<lambda>c. c \<in> set cs) (rev s) = rev s" by (cases "rev s") auto
  show ?thesis by (simp add: strip_chars_def 1 2)
qed

lemma py_int_str_nat: "py_int (str_nat n) = Inr (int n)"
proof -
  obtain c cs where s: "str_nat n = c # cs" using str_nat_nonempty[of n] by (cases "str_nat n") auto
  have dg: "list_all is_digit (c # cs)" using str_nat_digits[of n] s by simp
  then have c: "is_digit c" by simp
  have l: "is_digit (last (c # cs))" using dg by (metis last_in_set list.distinct(1) list_all_iff)
  have st: "py_strip (c # cs) = c # cs"
    unfolding py_strip_def using c l is_digit_not_special
    by (intro strip_chars_id) auto
  have "int_digits (the (digit_val c)) cs = Some n"
    using int_digits_head[OF c, of cs] int_digits_str_nat[of n] s by simp
  moreover obtain v where "digit_val c = Some v" using c by (auto simp: is_digit_def)
  ultimately show ?thesis using is_digit_not_special[OF c]
    by (simp add: py_int_def s st)
qed

lemma py_int_py_str: "py_int (py_str i) = Inr i"
proof (cases "i < 0")
  case False
  then show ?thesis by (simp add: py_str_def py_int_str_nat)
next
  case True
  obtain c cs where s: "str_nat (nat (- i)) = c # cs"
    using str_nat_nonempty[of "nat (- i)"] by (cases "str_nat (nat (- i))") auto
  have dg: "list_all is_digit (c # cs)" using str_nat_digits[of "nat (- i)"] s by simp
  then have c: "is_digit c" by simp
  have l: "is_digit (last (c # cs))" using dg by (metis last_in_set list.distinct(1) list_all_iff)
  have st: "py_strip (CHR ''-'' # c # cs) = CHR ''-'' # c # cs"
    unfolding py_strip_def using l is_digit_not_special[of "last (c # cs)"]
    by (intro strip_chars_id) (auto simp: py_whitespace_def)
  have "int_digits (the (digit_val c)) cs = Some (nat (- i))"
    using int_digits_head[OF c, of cs] int_digits_str_nat[of "nat (- i)"] s by simp
  moreover obtain v where "digit_val c = Some v" using c by (auto simp: is_digit_def)
  ultimately show ?thesis using True
    by (simp add: py_int_def py_str_def s st)
qed



lemma py_str_chars: "list_all int_char (py_str i)"
  using str_nat_digits[of "nat i"] str_nat_digits[of "nat (- i)"]
  by (auto simp: py_str_def int_char_def list_all_iff)

lemma py_str_nonempty: "py_str i \<noteq> []"
  by (simp add: py_str_def str_nat_nonempty)

lemma int_char_not_special:
  "int_char c \<Longrightarrow> c \<noteq> CHR '','' \<and> c \<noteq> CHR ''['' \<and> c \<noteq> CHR '']'' \<and> c \<noteq> CHR 0x0A"
  using is_digit_not_special[of c] by (auto simp: int_char_def)

lemma py_strip_py_str: "py_strip (py_str i) = py_str i"
proof -
  have ne: "py_str i \<noteq> []" by (rule py_str_nonempty)
  have a: "\<And>c. c \<in> set (py_str i) \<Longrightarrow> c \<notin> set py_whitespace"
  proof -
    fix c assume "c \<in> set (py_str i)"
    then have "int_char c" using py_str_chars[of i] by (simp add: list_all_iff)
    then consider "is_digit c" | "c = CHR ''-''" by (auto simp: int_char_def)
    then show "c \<notin> set py_whitespace"
    proof cases
      case 1
      then show ?thesis using is_digit_not_special[of c] by blast
    next
      case 2
      then show ?thesis by (simp add: py_whitespace_def)
    qed
  qed
  have h: "hd (py_str i) \<notin> set py_whitespace" using a[of "hd (py_str i)"] ne by simp
  have l: "last (py_str i) \<notin> set py_whitespace" using a[of "last (py_str i)"] ne by simp
  show ?thesis unfolding py_strip_def by (rule strip_chars_id[OF ne h l])
qed

lemma split_on_no_sep: "sep \<notin> set x \<Longrightarrow> split_on sep x = [x]"
  by (induction x) auto

lemma split_on_append: "sep \<notin> set x \<Longrightarrow> split_on sep (x @ sep # r) = x # split_on sep r"
  by (induction x) auto

lemma split_on_join:
  "xs \<noteq> [] \<Longrightarrow> \<forall>x\<in>set xs. sep \<notin> set x \<Longrightarrow> split_on sep (join [sep] xs) = xs"
  by (induction "[sep]" xs rule: join.induct) (simp_all add: split_on_no_sep split_on_append)

lemma set_join: "set (join sep xs) \<subseteq> set sep \<union> \<Union> (set ` set xs)"
  by (induction sep xs rule: join.induct) auto

lemma join_eq_Nil: "join sep xs = [] \<Longrightarrow> xs \<noteq> [] \<Longrightarrow> hd xs = []"
  by (induction sep xs rule: join.induct) auto

lemma strip_chars_enclosed:
  "a \<in> set cs \<Longrightarrow> b \<in> set cs \<Longrightarrow> set body \<inter> set cs = {} \<Longrightarrow>
   strip_chars cs (a # body @ [b]) = body"
proof -
  assume h: "a \<in> set cs" "b \<in> set cs" "set body \<inter> set cs = {}"
  show ?thesis
  proof (cases body)
    case Nil
    with h show ?thesis by (simp add: strip_chars_def)
  next
    case (Cons x xs)
    with h have 1: "dropWhile (\<lambda>c. c \<in> set cs) (body @ [b]) = body @ [b]" by auto
    have "\<forall>c\<in>set (rev body). c \<notin> set cs" using h by auto
    moreover have "rev body \<noteq> []" using Cons by simp
    ultimately have 2: "dropWhile (\<lambda>c. c \<in> set cs) (rev body) = rev body"
      by (cases "rev body") auto
    show ?thesis using h by (simp add: strip_chars_def 1 2)
  qed
qed

lemma int_of_parts_py_str: "int_of_parts (map py_str xs) = Inr xs"
  by (induction xs) (simp_all add: py_strip_py_str py_int_py_str)

lemma array_body_chars:
  "c \<in> set (join '','' (map py_str array)) \<Longrightarrow> int_char c \<or> c = CHR '',''"
  using set_join[of "'',''" "map py_str array"] py_str_chars
  by (auto simp: list_all_iff)

lemma parse_assignment_array_text: "parse_assignment (array_text array) = Inr array"
proof -
  let ?body = "join '','' (map py_str array)"
  have disj: "set ?body \<inter> set ''[]'' = {}"
    using array_body_chars[of _ array] int_char_not_special by auto
  have strip: "strip_chars ''[]'' (array_text array) = ?body"
    unfolding array_text_def using strip_chars_enclosed[of "CHR ''[''" "''[]''" "CHR '']''" ?body] disj
    by simp
  show ?thesis
  proof (cases "array = []")
    case True
    then show ?thesis using strip by (simp add: parse_assignment_def)
  next
    case False
    then have ne: "map py_str array \<noteq> []" by simp
    have nosep: "\<forall>x\<in>set (map py_str array). CHR '','' \<notin> set x"
      using py_str_chars int_char_not_special by (auto simp: list_all_iff)
    have sp: "split_on CHR '','' ?body = map py_str array"
      using split_on_join[OF ne nosep] by simp
    have "?body \<noteq> []"
      using join_eq_Nil[of "'',''" "map py_str array"] ne False py_str_nonempty
      by (cases array) auto
    then show ?thesis by (simp add: parse_assignment_def strip sp int_of_parts_py_str)
  qed
qed

lemma array_text_no_newline: "CHR 0x0A \<notin> set (array_text array)"
  using array_body_chars[of "CHR 0x0A" array] int_char_not_special[of "CHR 0x0A"]
  by (auto simp: array_text_def)

lemma file_lines_line: "CHR 0x0A \<notin> set l \<Longrightarrow> file_lines (l @ CHR 0x0A # r) = l # file_lines r"
  by (induction l) auto

lemma file_lines_concat:
  "\<forall>l\<in>set ls. CHR 0x0A \<notin> set l \<Longrightarrow> file_lines (concat (map (\<lambda>l. l @ [CHR 0x0A]) ls)) = ls"
  by (induction ls) (simp_all add: file_lines_line)

section \<open>The text converter\<close>


lemma content_fwrite: "content (fwrite p t w) q = (if q = p then content w p @ t else content w q)"
  by (simp add: content_def fwrite_def)

lemma content_truncate_file: "content (truncate_file p w) q = (if q = p then [] else content w q)"
  by (simp add: content_def truncate_file_def)

lemma content_logger: "content (logger ev w) q = content w q"
  by (simp add: content_def logger_def)

lemma content_fold_fwrite:
  "content (fold (\<lambda>x. fwrite p (f x)) xs w) q =
     (if q = p then content w p @ concat (map f xs) else content w q)"
  by (induction xs arbitrary: w) (simp_all add: content_fwrite)

lemma write_arrays_to_text_content:
  "open_w e w out = None \<Longrightarrow>
   write_arrays_to_text e arrs out w = (Inr (), w') \<Longrightarrow>
   content w' out = concat (map (\<lambda>a. array_text a @ [CHR 0x0A]) arrs)"
  by (auto simp: write_arrays_to_text_def Let_def content_logger content_fold_fwrite
      content_truncate_file)

lemma write_arrays_to_text_ok:
  "open_w e w out = None \<Longrightarrow> fst (write_arrays_to_text e arrs out w) = Inr ()"
  by (simp add: write_arrays_to_text_def Let_def)

lemma file_lines_array_texts:
  "file_lines (concat (map (\<lambda>a. array_text a @ [CHR 0x0A]) arrs)) = map array_text arrs"
proof -
  have "concat (map (\<lambda>a. array_text a @ [CHR 0x0A]) arrs) =
        concat (map (\<lambda>l. l @ [CHR 0x0A]) (map array_text arrs))"
    by (simp add: comp_def)
  then show ?thesis
    using file_lines_concat[of "map array_text arrs"] array_text_no_newline by auto
qed

text \<open>
  Claim C1. For every list of integer arrays, writing the arrays with
  \<^verbatim>\<open>_write_arrays_to_text\<close> (one line per array, the elements comma-joined inside square
  brackets) and parsing each line of the written file with \<^verbatim>\<open>parse_assignment\<close> gives back
  the same arrays in the same order, empty arrays included. The only condition is that
  the output file opens for writing.
\<close>

theorem text_round_trip:
  assumes "open_w e w output_file = None"
  shows "fst (write_arrays_to_text e arrs output_file w) = Inr () \<and>
         map parse_assignment
           (file_lines (content (snd (write_arrays_to_text e arrs output_file w)) output_file))
         = map Inr arrs"
proof -
  obtain w' where r: "write_arrays_to_text e arrs output_file w = (Inr (), w')"
    using write_arrays_to_text_ok[OF assms, of arrs] by (cases "write_arrays_to_text e arrs output_file w") auto
  have "file_lines (content w' output_file) = map array_text arrs"
    using write_arrays_to_text_content[OF assms r] file_lines_array_texts by simp
  then show ?thesis using r by (simp add: parse_assignment_array_text)
qed

theorem text_round_trip_witness:
  "map parse_assignment
     (file_lines (content (snd (write_arrays_to_text test_env [[3, - 12, 40], [], [7]] [''out.txt'']
        empty_world)) [''out.txt'']))
   = [Inr [3, - 12, 40], Inr [], Inr [7]]"
  using text_round_trip[of test_env empty_world "[''out.txt'']" "[[3, - 12, 40], [], [7]]"]
  by (simp add: test_env_def)

lemma files_logger: "files (logger ev w) = files w"
  by (simp add: logger_def)

lemma path_exists_logger: "path_exists (logger ev w) p = path_exists w p"
  by (simp add: path_exists_def logger_def)

lemmas world_simps = path_exists_def logger_def fwrite_def truncate_file_def content_def print_def
  path_name_def path_parent_def path_join_def

text \<open>
  The single-file conversion: when the file exists, the parser decodes it and the output
  file opens, the text written has exactly one line per array and no other line.
\<close>

lemma convert_binary_to_text_lines:
  assumes ex: "path_exists w binary_file"
    and ld: "parser_load e (logger (InfoConverting (path_name binary_file)) w) binary_file = Inr structure"
    and out: "(case output_file of None \<Rightarrow> with_suffix binary_file ''.txt'' | Some p \<Rightarrow> Inr p) = Inr out"
    and op: "open_w e (logger (InfoConverting (path_name binary_file)) w) out = None"
  shows "fst (convert_binary_to_text e binary_file output_file w) = Inr out \<and>
         file_lines (content (snd (convert_binary_to_text e binary_file output_file w)) out)
           = map (\<lambda>array. ''['' @ join '','' (map py_str array) @ '']'') (arrays structure) \<and>
         length (file_lines (content (snd (convert_binary_to_text e binary_file output_file w)) out))
           = length (arrays structure)"
proof -
  let ?w1 = "logger (InfoConverting (path_name binary_file)) w"
  obtain w2 where wr: "write_arrays_to_text e (arrays structure) out ?w1 = (Inr (), w2)"
    using write_arrays_to_text_ok[OF op, of "arrays structure"]
    by (cases "write_arrays_to_text e (arrays structure) out ?w1") auto
  have c: "content w2 out = concat (map (\<lambda>a. array_text a @ [CHR 0x0A]) (arrays structure))"
    by (rule write_arrays_to_text_content[OF op wr])
  have r: "convert_binary_to_text e binary_file output_file w = (Inr out, logger (InfoConvertedTo out) w2)"
    using ex ld out wr by (simp add: convert_binary_to_text_def Let_def)
  have "file_lines (content (logger (InfoConvertedTo out) w2) out) = map array_text (arrays structure)"
    by (simp add: content_logger c file_lines_array_texts)
  then show ?thesis using r by (simp add: array_text_def)
qed

lemma convert_loop_error:
  "convert_loop e out xs w = (Some err, w') \<Longrightarrow>
   \<exists>w'' f. f \<in> snd ` set xs \<and> path_exists w'' f \<and> parser_load e w'' f = Inl err"
proof (induction e out xs w rule: convert_loop.induct)
  case (1 e output_file w)
  then show ?case by simp
next
  case (2 e output_file i binary_file rest w)
  show ?case
  proof (cases "path_exists w binary_file")
    case False
    with 2 show ?thesis by auto
  next
    case True
    show ?thesis
    proof (cases "parser_load e w binary_file")
      case (Inl err')
      with True 2(3) have "err' = err" by simp
      with True Inl show ?thesis by auto
    next
      case (Inr s)
      with True 2 show ?thesis by auto
    qed
  qed
qed

lemma convert_multiple_unfold:
  assumes "binary_files \<noteq> []"
    and "out = (case output_file of None \<Rightarrow> path_join (path_parent (hd binary_files)) ''zdd_vectors.txt'' | Some p \<Rightarrow> p)"
    and "w1 = logger (InfoConvertingFiles (length binary_files)) w0"
    and "open_w e w1 out = None"
    and "convert_loop e out (enumerate 0 binary_files) (truncate_file out w1) = (r, w2)"
  shows "convert_multiple_binary_files e binary_files output_file w0 =
         (case r of Some err \<Rightarrow> (Inl err, w2)
          | None \<Rightarrow> (Inr out, logger (InfoConvertedFiles (length binary_files) out) w2))"
  unfolding convert_multiple_binary_files_def Let_def
  using assms(1) assms(4,5)[unfolded assms(2,3)] unfolding assms(2,3)
  by (simp split: option.split)

lemma py_str_no_newline: "CHR 0x0A \<notin> set (py_str i)"
  using py_str_chars[of i] int_char_not_special by (auto simp: list_all_iff)

lemma content_write_zdd_section:
  "content (write_zdd_section out i bf s w) out =
     content w out @ concat (map (\<lambda>l. l @ [CHR 0x0A]) (zdd_section_lines i bf s))"
  by (simp add: write_zdd_section_def Let_def content_logger content_fwrite content_fold_fwrite
      zdd_section_lines_def comp_def)

lemma zdd_section_lines_no_newline:
  assumes "CHR 0x0A \<notin> set (path_name bf)"
  shows "\<forall>l\<in>set (zdd_section_lines i bf s). CHR 0x0A \<notin> set l"
  using assms py_str_no_newline array_text_no_newline
  by (auto simp: zdd_section_lines_def)

lemma convert_multiple_one_file:
  assumes ex: "path_exists w binary_file"
    and out: "out = (case output_file of None \<Rightarrow> path_join (path_parent binary_file) ''zdd_vectors.txt''
                     | Some p \<Rightarrow> p)"
    and op: "open_w e (logger (InfoConvertingFiles 1) w) out = None"
    and ld: "parser_load e (truncate_file out (logger (InfoConvertingFiles 1) w)) binary_file = Inr structure"
    and nl: "CHR 0x0A \<notin> set (path_name binary_file)"
  shows "fst (convert_multiple_binary_files e [binary_file] output_file w) = Inr out \<and>
         file_lines (content (snd (convert_multiple_binary_files e [binary_file] output_file w)) out)
           = zdd_section_lines 0 binary_file structure"
proof -
  let ?w1 = "logger (InfoConvertingFiles 1) w"
  let ?w2 = "truncate_file out ?w1"
  have ex2: "path_exists ?w2 binary_file"
    using ex by (simp add: path_exists_def truncate_file_def logger_def)
  have loop: "convert_loop e out (enumerate 0 [binary_file]) ?w2 =
        (None, write_zdd_section out 0 binary_file structure ?w2)"
    using ex2 ld by simp
  have r: "convert_multiple_binary_files e [binary_file] output_file w =
        (Inr out, logger (InfoConvertedFiles 1 out) (write_zdd_section out 0 binary_file structure ?w2))"
  proof -
    have a1: "[binary_file] \<noteq> []" by simp
    have a2: "out = (case output_file of
                      None \<Rightarrow> path_join (path_parent (hd [binary_file])) ''zdd_vectors.txt''
                    | Some p \<Rightarrow> p)"
      using out by (cases output_file) simp_all
    have a3: "?w1 = logger (InfoConvertingFiles (length [binary_file])) w" by simp
    show ?thesis using convert_multiple_unfold[OF a1 a2 a3 op loop] by simp
  qed
  have "content (logger (InfoConvertedFiles 1 out) (write_zdd_section out 0 binary_file structure ?w2)) out
        = concat (map (\<lambda>l. l @ [CHR 0x0A]) (zdd_section_lines 0 binary_file structure))"
    by (simp add: content_logger content_write_zdd_section content_truncate_file)
  then show ?thesis
    using r file_lines_concat[OF zdd_section_lines_no_newline[OF nl]] by simp
qed

text \<open>
  Claim C4, as the scripts behave. A single-file conversion of a file that does not exist
  raises \<^verbatim>\<open>FileNotFoundError\<close> and leaves the world as it was; the command exits with
  status 1 after one printed message and writes no file. The loop of the multi-file
  conversion logs a warning for a missing file and goes on with the next one; the
  multi-file conversion raises only for an empty list, for an output file that does not
  open, or with what the parser raises on a file that exists.
\<close>

theorem missing_input_file:
  assumes "\<not> path_exists w binary_file"
  shows "convert_binary_to_text e binary_file output_file w
           = (Inl (FileNotFoundError (BinaryFileNotFound binary_file)), w) \<and>
         main e \<lparr>args_input = binary_file, args_output = output_file, args_job = False\<rparr> w
           = (1, print (PrintNotFileOrDirectory binary_file) w) \<and>
         files (snd (main e \<lparr>args_input = binary_file, args_output = output_file, args_job = False\<rparr> w))
           = files w \<and>
         convert_loop e out ((i, binary_file) # rest) w
           = convert_loop e out rest (logger (WarningFileNotFound binary_file) w) \<and>
         (fst (convert_multiple_binary_files e binary_files output_file w0) = Inl err \<longrightarrow>
            binary_files = [] \<or>
            (\<exists>w1 p. open_w e w1 p = Some err) \<or>
            (\<exists>w1 f. f \<in> set binary_files \<and> path_exists w1 f \<and> parser_load e w1 f = Inl err))"
proof -
  have 1: "convert_binary_to_text e binary_file output_file w
           = (Inl (FileNotFoundError (BinaryFileNotFound binary_file)), w)"
    using assms by (simp add: convert_binary_to_text_def)
  have nf: "\<not> is_file w binary_file" "\<not> is_dir w binary_file"
    using assms by (simp_all add: is_file_def is_dir_def path_exists_def)
  have 2: "main e \<lparr>args_input = binary_file, args_output = output_file, args_job = False\<rparr> w
           = (1, print (PrintNotFileOrDirectory binary_file) w)"
    using nf by (simp add: main_def)
  have 3: "files (print (PrintNotFileOrDirectory binary_file) w) = files w"
    by (simp add: print_def)
  have 4: "convert_loop e out ((i, binary_file) # rest) w
           = convert_loop e out rest (logger (WarningFileNotFound binary_file) w)"
    using assms by simp
  have 5: "fst (convert_multiple_binary_files e binary_files output_file w0) = Inl err \<longrightarrow>
            binary_files = [] \<or>
            (\<exists>w1 p. open_w e w1 p = Some err) \<or>
            (\<exists>w1 f. f \<in> set binary_files \<and> path_exists w1 f \<and> parser_load e w1 f = Inl err)"
  proof
    assume f: "fst (convert_multiple_binary_files e binary_files output_file w0) = Inl err"
    show "binary_files = [] \<or> (\<exists>w1 p. open_w e w1 p = Some err) \<or>
          (\<exists>w1 f. f \<in> set binary_files \<and> path_exists w1 f \<and> parser_load e w1 f = Inl err)"
    proof (cases "binary_files = []")
      case True
      then show ?thesis by simp
    next
      case ne: False
      let ?w1 = "logger (InfoConvertingFiles (length binary_files)) w0"
      let ?out = "case output_file of None \<Rightarrow> path_join (path_parent (hd binary_files)) ''zdd_vectors.txt'' | Some p \<Rightarrow> p"
      show ?thesis
      proof (cases "open_w e ?w1 ?out")
        case (Some err')
        with ne f have "err' = err" by (simp add: convert_multiple_binary_files_def Let_def)
        with Some show ?thesis by blast
      next
        case None
        obtain r w2 where l: "convert_loop e ?out (enumerate 0 binary_files) (truncate_file ?out ?w1) = (r, w2)"
          by (meson surj_pair)
        have "convert_multiple_binary_files e binary_files output_file w0 =
              (case r of Some err \<Rightarrow> (Inl err, w2)
               | None \<Rightarrow> (Inr ?out, logger (InfoConvertedFiles (length binary_files) ?out) w2))"
          by (rule convert_multiple_unfold[OF ne refl refl None l])
        with f have rs: "r = Some err" by (cases r) simp_all
        have "\<exists>w'' g. g \<in> snd ` set (enumerate 0 binary_files) \<and> path_exists w'' g \<and>
                parser_load e w'' g = Inl err"
          by (rule convert_loop_error[OF l[unfolded rs]])
        moreover have "snd ` set (enumerate 0 binary_files) = set binary_files"
          by (metis map_snd_enumerate set_map)
        ultimately have "\<exists>w'' g. g \<in> set binary_files \<and> path_exists w'' g \<and>
                parser_load e w'' g = Inl err" by simp
        then show ?thesis by blast
      qed
    qed
  qed
  show ?thesis using 1 2 3 4 5 by simp
qed

theorem missing_input_file_witness:
  "\<not> path_exists sample_world [''missing.bin''] \<and>
   convert_binary_to_text sample_env [''missing.bin''] None sample_world
     = (Inl (FileNotFoundError (BinaryFileNotFound [''missing.bin''])), sample_world) \<and>
   fst (main sample_env \<lparr>args_input = [''missing.bin''], args_output = None, args_job = False\<rparr>
     sample_world) = 1"
proof -
  have a: "\<not> path_exists sample_world [''missing.bin'']"
    by (simp add: path_exists_def sample_world_def)
  show ?thesis
    using a missing_input_file[OF a, where e = sample_env and output_file = None]
    by simp
qed

text \<open>
  Claim C4 as stated fails for the multi-file conversion: with a missing first file and a
  present second one it returns the output path, and the output holds the section of the
  second file.
\<close>

theorem multi_file_skips_missing_input:
  "\<not> path_exists sample_world [''missing.bin''] \<and>
   fst (convert_multiple_binary_files sample_env [[''missing.bin''], [''zdd_1.bin'']]
          (Some [''out.txt'']) sample_world) = Inr [''out.txt''] \<and>
   file_lines (content (snd (convert_multiple_binary_files sample_env
          [[''missing.bin''], [''zdd_1.bin'']] (Some [''out.txt'']) sample_world)) [''out.txt''])
     = [''# ZDD 2: zdd_1.bin'', ''# Magic: 7'', ''# Arrays: 3'', ''#'',
        ''[2,7,8]'', ''[]'', ''[1]'', ''#'', ''# End of ZDD 2'', ''#'']"
  by (simp add: convert_multiple_binary_files_def sample_env_def sample_world_def
      sample_structure_def write_zdd_section_def world_simps enumerate_eq_zip Let_def
      array_text_def py_str_def str_nat.simps digit_char_def)

text \<open>
  Claim C5, as the converter behaves. The text written by \<^verbatim>\<open>convert_binary_to_text\<close> for a
  single binary file has exactly one line per array and no other line: line \<open>i\<close> is array
  \<open>i\<close> of the decoded structure, its elements in decimal, comma-joined inside square
  brackets. When one structure is converted through \<^verbatim>\<open>convert_multiple_binary_files\<close>,
  the same array lines, in the same order, stand between four comment lines (the number
  and name of the file, the magic number, the number of arrays, \<^verbatim>\<open>#\<close>) and three more
  (\<^verbatim>\<open>#\<close>, the end marker, \<^verbatim>\<open>#\<close>).
\<close>

theorem single_structure_text_lines:
  assumes ex: "path_exists w binary_file"
    and ld: "parser_load e (logger (InfoConverting (path_name binary_file)) w) binary_file = Inr structure"
    and out: "(case output_file of None \<Rightarrow> with_suffix binary_file ''.txt'' | Some p \<Rightarrow> Inr p) = Inr out"
    and op: "open_w e (logger (InfoConverting (path_name binary_file)) w) out = None"
  shows "fst (convert_binary_to_text e binary_file output_file w) = Inr out \<and>
         file_lines (content (snd (convert_binary_to_text e binary_file output_file w)) out)
           = map (\<lambda>array. ''['' @ join '','' (map py_str array) @ '']'') (arrays structure) \<and>
         length (file_lines (content (snd (convert_binary_to_text e binary_file output_file w)) out))
           = length (arrays structure) \<and>
         (multi_out = (case multi_output_file of
                         None \<Rightarrow> path_join (path_parent binary_file) ''zdd_vectors.txt''
                       | Some p \<Rightarrow> p) \<and>
          open_w e (logger (InfoConvertingFiles 1) w) multi_out = None \<and>
          parser_load e (truncate_file multi_out (logger (InfoConvertingFiles 1) w)) binary_file
            = Inr multi_structure \<and>
          CHR 0x0A \<notin> set (path_name binary_file) \<longrightarrow>
            fst (convert_multiple_binary_files e [binary_file] multi_output_file w) = Inr multi_out \<and>
            file_lines (content (snd (convert_multiple_binary_files e [binary_file]
                multi_output_file w)) multi_out)
              = [''# ZDD 1: '' @ path_name binary_file,
                 ''# Magic: '' @ py_str (magic_number multi_structure),
                 ''# Arrays: '' @ py_str (int (length (arrays multi_structure))),
                 ''#'']
                @ map (\<lambda>array. ''['' @ join '','' (map py_str array) @ '']'') (arrays multi_structure)
                @ [''#'', ''# End of ZDD 1'', ''#''])"
proof -
  have single: "fst (convert_binary_to_text e binary_file output_file w) = Inr out \<and>
         file_lines (content (snd (convert_binary_to_text e binary_file output_file w)) out)
           = map (\<lambda>array. ''['' @ join '','' (map py_str array) @ '']'') (arrays structure) \<and>
         length (file_lines (content (snd (convert_binary_to_text e binary_file output_file w)) out))
           = length (arrays structure)"
    by (rule convert_binary_to_text_lines[OF ex ld out op])
  have one: "py_str (int 0 + 1) = ''1''"
    by (simp add: py_str_def str_nat.simps digit_char_def)
  have multi: "multi_out = (case multi_output_file of
                         None \<Rightarrow> path_join (path_parent binary_file) ''zdd_vectors.txt''
                       | Some p \<Rightarrow> p) \<and>
          open_w e (logger (InfoConvertingFiles 1) w) multi_out = None \<and>
          parser_load e (truncate_file multi_out (logger (InfoConvertingFiles 1) w)) binary_file
            = Inr multi_structure \<and>
          CHR 0x0A \<notin> set (path_name binary_file) \<longrightarrow>
            fst (convert_multiple_binary_files e [binary_file] multi_output_file w) = Inr multi_out \<and>
            file_lines (content (snd (convert_multiple_binary_files e [binary_file]
                multi_output_file w)) multi_out)
              = [''# ZDD 1: '' @ path_name binary_file,
                 ''# Magic: '' @ py_str (magic_number multi_structure),
                 ''# Arrays: '' @ py_str (int (length (arrays multi_structure))),
                 ''#'']
                @ map (\<lambda>array. ''['' @ join '','' (map py_str array) @ '']'') (arrays multi_structure)
                @ [''#'', ''# End of ZDD 1'', ''#'']"
  proof
    assume h: "multi_out = (case multi_output_file of
                         None \<Rightarrow> path_join (path_parent binary_file) ''zdd_vectors.txt''
                       | Some p \<Rightarrow> p) \<and>
          open_w e (logger (InfoConvertingFiles 1) w) multi_out = None \<and>
          parser_load e (truncate_file multi_out (logger (InfoConvertingFiles 1) w)) binary_file
            = Inr multi_structure \<and>
          CHR 0x0A \<notin> set (path_name binary_file)"
    then have h1: "multi_out = (case multi_output_file of
                         None \<Rightarrow> path_join (path_parent binary_file) ''zdd_vectors.txt''
                       | Some p \<Rightarrow> p)"
      and h2: "open_w e (logger (InfoConvertingFiles 1) w) multi_out = None"
      and h3: "parser_load e (truncate_file multi_out (logger (InfoConvertingFiles 1) w)) binary_file
            = Inr multi_structure"
      and h4: "CHR 0x0A \<notin> set (path_name binary_file)"
      by blast+
    have "zdd_section_lines 0 binary_file multi_structure =
          [''# ZDD 1: '' @ path_name binary_file,
           ''# Magic: '' @ py_str (magic_number multi_structure),
           ''# Arrays: '' @ py_str (int (length (arrays multi_structure))),
           ''#'']
          @ map (\<lambda>array. ''['' @ join '','' (map py_str array) @ '']'') (arrays multi_structure)
          @ [''#'', ''# End of ZDD 1'', ''#'']"
      using one by (simp add: zdd_section_lines_def array_text_def)
    then show "fst (convert_multiple_binary_files e [binary_file] multi_output_file w) = Inr multi_out \<and>
            file_lines (content (snd (convert_multiple_binary_files e [binary_file]
                multi_output_file w)) multi_out)
              = [''# ZDD 1: '' @ path_name binary_file,
                 ''# Magic: '' @ py_str (magic_number multi_structure),
                 ''# Arrays: '' @ py_str (int (length (arrays multi_structure))),
                 ''#'']
                @ map (\<lambda>array. ''['' @ join '','' (map py_str array) @ '']'') (arrays multi_structure)
                @ [''#'', ''# End of ZDD 1'', ''#'']"
      using convert_multiple_one_file[OF ex h1 h2 h3 h4] by simp
  qed
  show ?thesis using single multi by blast
qed

theorem single_structure_text_lines_witness:
  "fst (convert_binary_to_text sample_env [''zdd_1.bin''] None sample_world) = Inr [''zdd_1.txt''] \<and>
   file_lines (content (snd (convert_binary_to_text sample_env [''zdd_1.bin''] None sample_world))
      [''zdd_1.txt'']) = [''[2,7,8]'', ''[]'', ''[1]''] \<and>
   file_lines (content (snd (convert_multiple_binary_files sample_env [[''zdd_1.bin'']] None
      sample_world)) [''zdd_vectors.txt''])
     = [''# ZDD 1: zdd_1.bin'', ''# Magic: 7'', ''# Arrays: 3'', ''#'',
        ''[2,7,8]'', ''[]'', ''[1]'', ''#'', ''# End of ZDD 1'', ''#'']"
proof -
  have a: "path_exists sample_world [''zdd_1.bin'']"
    by (simp add: path_exists_def sample_world_def)
  have b: "parser_load sample_env (logger (InfoConverting (path_name [''zdd_1.bin''])) sample_world)
             [''zdd_1.bin''] = Inr sample_structure"
    by (simp add: sample_env_def)
  have c: "(case None of None \<Rightarrow> with_suffix [''zdd_1.bin''] ''.txt'' | Some p \<Rightarrow> Inr p) = Inr [''zdd_1.txt'']"
    by (simp add: with_suffix_def path_suffix_def path_name_def)
  have d: "open_w sample_env (logger (InfoConverting (path_name [''zdd_1.bin''])) sample_world) [''zdd_1.txt''] = None"
    by (simp add: sample_env_def)
  have e: "map (\<lambda>array. ''['' @ join '','' (map py_str array) @ '']'') (arrays sample_structure)
           = [''[2,7,8]'', ''[]'', ''[1]'']"
    by (simp add: sample_structure_def py_str_def str_nat.simps digit_char_def)
  have m1: "[''zdd_vectors.txt''] = (case None of
               None \<Rightarrow> path_join (path_parent [''zdd_1.bin'']) ''zdd_vectors.txt''
             | Some p \<Rightarrow> p)"
    by (simp add: path_join_def path_parent_def)
  have m2: "open_w sample_env (logger (InfoConvertingFiles 1) sample_world) [''zdd_vectors.txt''] = None"
    by (simp add: sample_env_def)
  have m3: "parser_load sample_env (truncate_file [''zdd_vectors.txt'']
              (logger (InfoConvertingFiles 1) sample_world)) [''zdd_1.bin''] = Inr sample_structure"
    by (simp add: sample_env_def)
  have m4: "CHR 0x0A \<notin> set (path_name [''zdd_1.bin''])"
    by (simp add: path_name_def)
  have n: "path_name [''zdd_1.bin''] = ''zdd_1.bin''" by (simp add: path_name_def)
  have f: "py_str (magic_number sample_structure) = ''7''"
    "py_str (int (length (arrays sample_structure))) = ''3''"
    by (simp_all add: sample_structure_def py_str_def str_nat.simps digit_char_def)
  show ?thesis
    using single_structure_text_lines[OF a b c d, of "[''zdd_vectors.txt'']" None sample_structure]
      m1 m2 m3 m4 e f n
    by simp
qed

text \<open>
  Claim C5 as stated fails for a single structure converted through
  \<^verbatim>\<open>convert_multiple_binary_files\<close>: the structure has three arrays and the output has ten
  lines, seven of them comment lines.
\<close>

theorem multi_file_single_structure_extra_lines:
  "fst (convert_multiple_binary_files sample_env [[''zdd_1.bin'']] (Some [''out.txt''])
          sample_world) = Inr [''out.txt''] \<and>
   arrays sample_structure = [[2, 7, 8], [], [1]] \<and>
   file_lines (content (snd (convert_multiple_binary_files sample_env [[''zdd_1.bin'']]
          (Some [''out.txt'']) sample_world)) [''out.txt''])
     = [''# ZDD 1: zdd_1.bin'', ''# Magic: 7'', ''# Arrays: 3'', ''#'',
        ''[2,7,8]'', ''[]'', ''[1]'', ''#'', ''# End of ZDD 1'', ''#'']"
  by (simp add: convert_multiple_binary_files_def sample_env_def sample_world_def
      sample_structure_def write_zdd_section_def world_simps enumerate_eq_zip Let_def
      array_text_def py_str_def str_nat.simps digit_char_def)

section \<open>The CSV analyser\<close>

lemma fold_complete_element_step:
  "fold (complete_element_step z s i a) xs st =
     st\<lparr>rows := rows st @ map (\<lambda>pv. complete_row z s i a (fst pv) (snd pv)) xs,
        total_elements := total_elements st + length xs\<rparr>"
  by (induction xs arbitrary: st) (simp_all add: complete_element_step_def)

lemma complete_array_step_eq:
  "complete_array_step z s ia st =
     st\<lparr>rows := rows st @ array_rows z s ia,
        total_elements := total_elements st + length (snd ia),
        total_arrays := total_arrays st + 1\<rparr>"
  by (simp add: complete_array_step_def fold_complete_element_step array_rows_def)

lemma fold_complete_array_step:
  "fold (complete_array_step z s) xs st =
     st\<lparr>rows := rows st @ concat (map (array_rows z s) xs),
        total_elements := total_elements st + sum_list (map (\<lambda>ia. length (snd ia)) xs),
        total_arrays := total_arrays st + length xs\<rparr>"
  by (induction xs arbitrary: st) (simp_all add: complete_array_step_eq)

lemma map_snd_enumerate_comp: "map (\<lambda>ia. f (snd ia)) (enumerate n xs) = map f xs"
  by (induction xs arbitrary: n) simp_all

lemma dict_getitem_key:
  "k \<in> set (dict_keys d) \<Longrightarrow> \<exists>v. dict_getitem d k = Inr v \<and> map_of d k = Some v"
  by (cases "map_of d k") (auto simp: dict_getitem_def dict_keys_def map_of_eq_None_iff)

lemma complete_zdd_loop_eq:
  "set ids \<subseteq> set (dict_keys zdds) \<Longrightarrow>
   complete_zdd_loop zdds ids st =
     Inr (st\<lparr>rows := rows st @ concat (map (zdd_rows zdds) ids),
             total_elements := total_elements st +
                sum_list (map (\<lambda>k. sum_list (map length (arrays (lookup zdds k)))) ids),
             total_arrays := total_arrays st +
                sum_list (map (\<lambda>k. length (arrays (lookup zdds k))) ids)\<rparr>)"
proof (induction ids arbitrary: st)
  case Nil
  then show ?case by simp
next
  case (Cons k ids)
  then obtain s where s: "dict_getitem zdds k = Inr s" "map_of zdds k = Some s"
    using dict_getitem_key[of k zdds] by auto
  have ids: "set ids \<subseteq> set (dict_keys zdds)" using Cons.prems by simp
  show ?case
    by (simp add: s Cons.IH[OF ids] fold_complete_array_step zdd_rows_def lookup_def
        map_snd_enumerate_comp)
qed

lemma sum_list_sort:
  fixes f :: "'a::linorder \<Rightarrow> 'b::comm_monoid_add"
  shows "sum_list (map f (sort ks)) = sum_list (map f ks)"
proof -
  have "sum_mset (mset (map f (sort ks))) = sum_mset (mset (map f ks))" by simp
  then show ?thesis by (simp only: sum_mset_sum_list)
qed

lemma map_lookup_keys:
  "distinct (map fst zdds) \<Longrightarrow> map (\<lambda>k. f (lookup zdds k)) (map fst zdds) = map (\<lambda>item. f (snd item)) zdds"
proof (induction zdds)
  case Nil
  then show ?case by simp
next
  case (Cons a zdds)
  have "\<And>k. k \<in> set (map fst zdds) \<Longrightarrow> lookup (a # zdds) k = lookup zdds k"
    using Cons.prems by (cases a) (force simp: lookup_def)
  then have "map (\<lambda>k. f (lookup (a # zdds) k)) (map fst zdds) = map (\<lambda>k. f (lookup zdds k)) (map fst zdds)"
    by (intro map_cong) auto
  then show ?case using Cons by (simp add: lookup_def)
qed

lemma sum_over_sorted_keys:
  fixes f :: "ZDDStructure \<Rightarrow> 'b::comm_monoid_add"
  assumes d: "distinct (dict_keys zdds)"
  shows "sum_list (map (\<lambda>k. f (lookup zdds k)) (sort (dict_keys zdds))) = sum_list (map (\<lambda>item. f (snd item)) zdds)"
proof -
  have "sum_list (map (\<lambda>k. f (lookup zdds k)) (sort (dict_keys zdds))) =
        sum_list (map (\<lambda>k. f (lookup zdds k)) (map fst zdds))"
    unfolding dict_keys_def by (rule sum_list_sort)
  also have "map (\<lambda>k. f (lookup zdds k)) (map fst zdds) = map (\<lambda>item. f (snd item)) zdds"
    using d unfolding dict_keys_def by (rule map_lookup_keys)
  finally show ?thesis .
qed

lemma generate_complete_csv_eq:
  assumes "distinct (dict_keys zdds)"
  shows "generate_complete_csv zdds =
     Inr \<lparr>rows = complete_header # concat (map (zdd_rows zdds) (sort (dict_keys zdds))),
          total_arrays = count_arrays zdds, total_elements = count_elements zdds\<rparr>"
proof -
  have "set (sort (dict_keys zdds)) \<subseteq> set (dict_keys zdds)" by simp
  then show ?thesis
    unfolding generate_complete_csv_def
    by (simp add: complete_zdd_loop_eq count_arrays_def count_elements_def
        sum_over_sorted_keys[OF assms, of "\<lambda>s. length (arrays s)"]
        sum_over_sorted_keys[OF assms, of "\<lambda>s. sum_list (map length (arrays s))"])
qed

lemma length_array_rows: "length (array_rows z s ia) = length (snd ia)"
  by (simp add: array_rows_def)

lemma length_zdd_rows: "length (zdd_rows zdds k) = sum_list (map length (arrays (lookup zdds k)))"
proof (cases "map_of zdds k")
  case None
  then show ?thesis by (simp add: zdd_rows_def lookup_def)
next
  case (Some s)
  have "map (\<lambda>ia. length (array_rows k s ia)) (enumerate 0 (arrays s)) = map length (arrays s)"
    by (simp add: length_array_rows map_snd_enumerate_comp)
  then show ?thesis by (simp add: zdd_rows_def lookup_def Some length_concat comp_def)
qed

lemma length_complete_data:
  "distinct (dict_keys zdds) \<Longrightarrow>
   length (concat (map (zdd_rows zdds) (sort (dict_keys zdds)))) = count_elements zdds"
  using sum_over_sorted_keys[of zdds "\<lambda>s. sum_list (map length (arrays s))"]
  by (simp add: length_concat comp_def length_zdd_rows count_elements_def)

lemma summary_row_ok: "summary_row z s i a = Inr (summary_cells z s (i, a))"
  by (cases a) (simp_all add: summary_row_def summary_cells_def)

lemma summary_row_empty:
  "summary_row zdd_id structure array_idx [] =
     Inr [CInt zdd_id, CStr (thesis_number_of zdd_id), CInt (magic_number structure),
          CInt (int array_idx), CInt 0, CStr ''[]'', CStr ''[]'', CInt 0, CInt 0, CInt 0]"
  by (simp add: summary_row_def array_text_def)

lemma summary_array_loop_eq:
  "summary_array_loop z s xs out = Inr (out @ map (summary_cells z s) xs)"
  by (induction z s xs out rule: summary_array_loop.induct) (simp_all add: summary_row_ok)

lemma summary_zdd_loop_eq:
  "set ids \<subseteq> set (dict_keys zdds) \<Longrightarrow>
   summary_zdd_loop zdds ids out = Inr (out @ concat (map (summary_rows zdds) ids))"
proof (induction ids arbitrary: out)
  case Nil
  then show ?case by simp
next
  case (Cons k ids)
  then obtain s where s: "dict_getitem zdds k = Inr s" "map_of zdds k = Some s"
    using dict_getitem_key[of k zdds] by auto
  have ids: "set ids \<subseteq> set (dict_keys zdds)" using Cons.prems by simp
  show ?case
    by (simp add: s Cons.IH[OF ids] summary_array_loop_eq summary_rows_def lookup_def)
qed

lemma generate_array_summary_csv_eq:
  "generate_array_summary_csv zdds =
     Inr (summary_header # concat (map (summary_rows zdds) (sort (dict_keys zdds))))"
proof -
  have "set (sort (dict_keys zdds)) \<subseteq> set (dict_keys zdds)" by simp
  then show ?thesis
    unfolding generate_array_summary_csv_def by (simp add: summary_zdd_loop_eq)
qed

lemma length_summary_data:
  "distinct (dict_keys zdds) \<Longrightarrow>
   length (concat (map (summary_rows zdds) (sort (dict_keys zdds)))) = count_arrays zdds"
  using sum_over_sorted_keys[of zdds "\<lambda>s. length (arrays s)"]
  by (simp add: length_concat comp_def summary_rows_def count_arrays_def)

lemmas csv_simps = dict_keys_def dict_getitem_def dict_get_def thesis_number_of_def
  thesis_mapping_def complete_row_def complete_element_step_def complete_array_step_def
  array_text_def py_str_def str_nat.simps digit_char_def enumerate_eq_zip

lemma sample_complete:
  "generate_complete_csv sample_zdds =
     Inr \<lparr>rows = [complete_header,
        [CInt 1, CStr ''2020418'', CInt 7, CInt 0, CInt 2, CStr ''[2,8]'', CStr ''[2,8]'', CInt 0, CInt 2],
        [CInt 1, CStr ''2020418'', CInt 7, CInt 0, CInt 2, CStr ''[2,8]'', CStr ''[2,8]'', CInt 1, CInt 8],
        [CInt 1, CStr ''2020418'', CInt 7, CInt 2, CInt 1, CStr ''[5]'', CStr ''[5]'', CInt 0, CInt 5],
        [CInt 2, CStr ''2021246'', CInt 9, CInt 0, CInt 2, CStr ''[8,2]'', CStr ''[2,8]'', CInt 0, CInt 8],
        [CInt 2, CStr ''2021246'', CInt 9, CInt 0, CInt 2, CStr ''[8,2]'', CStr ''[2,8]'', CInt 1, CInt 2]],
        total_arrays = 5, total_elements = 5\<rparr>"
  by (simp add: generate_complete_csv_def sample_zdds_def csv_simps)

lemma collect_patterns_fold:
  "collect_patterns zdds =
     fold (\<lambda>occ. collect_array (fst occ) (snd occ)) (all_occurrences zdds) []"
proof -
  have "\<And>po. fold (\<lambda>item po. fold (collect_array (fst item)) (enumerate 0 (arrays (snd item))) po) zdds po =
        fold (\<lambda>occ. collect_array (fst occ) (snd occ)) (all_occurrences zdds) po"
  proof (induction zdds)
    case Nil
    then show ?case by (simp add: all_occurrences_def)
  next
    case (Cons a zdds)
    have "fold (\<lambda>occ. collect_array (fst occ) (snd occ))
            (map (\<lambda>ia. (fst a, ia)) (enumerate 0 (arrays (snd a)))) po =
          fold (collect_array (fst a)) (enumerate 0 (arrays (snd a))) po"
      by (simp add: fold_map comp_def)
    then show ?case using Cons[of "fold (collect_array (fst a)) (enumerate 0 (arrays (snd a))) po"]
      by (simp add: all_occurrences_def)
  qed
  then show ?thesis by (simp add: collect_patterns_def)
qed

lemma length_all_occurrences: "length (all_occurrences zdds) = count_arrays zdds"
  by (simp add: all_occurrences_def count_arrays_def length_concat comp_def)

lemma patterns_all_occurrences:
  "(\<lambda>occ. sort (snd (snd occ))) ` set (all_occurrences zdds) = sort ` all_arrays zdds"
proof -
  have "(\<lambda>occ. snd (snd occ)) ` set (all_occurrences zdds) = all_arrays zdds"
  proof (induction zdds)
    case Nil
    then show ?case by (simp add: all_occurrences_def all_arrays_def)
  next
    case (Cons a zdds)
    have "(\<lambda>occ. snd (snd occ)) ` (\<lambda>ia. (fst a, ia)) ` set (enumerate 0 (arrays (snd a)))
          = snd ` set (enumerate 0 (arrays (snd a)))"
      by (simp add: image_image)
    also have "\<dots> = set (arrays (snd a))"
      by (metis map_snd_enumerate set_map)
    finally show ?case using Cons
      by (simp add: all_occurrences_def all_arrays_def image_Un)
  qed
  then show ?thesis by (metis image_image)
qed

lemma keys_defaultdict_append:
  "set (dict_keys (defaultdict_append d k v)) = insert k (set (dict_keys d))"
  by (induction d k v rule: defaultdict_append.induct) (auto simp: dict_keys_def)

lemma distinct_defaultdict_append:
  "distinct (dict_keys d) \<Longrightarrow> distinct (dict_keys (defaultdict_append d k v))"
proof (induction d k v rule: defaultdict_append.induct)
  case (1 k v)
  then show ?case by (simp add: dict_keys_def)
next
  case (2 k' vs rest k v)
  then show ?case
    using keys_defaultdict_append[of rest k v] by (auto simp: dict_keys_def)
qed

lemma sum_defaultdict_append:
  "sum_list (map (\<lambda>item. length (snd item)) (defaultdict_append d k v)) =
   Suc (sum_list (map (\<lambda>item. length (snd item)) d))"
  by (induction d k v rule: defaultdict_append.induct) simp_all

lemma nonempty_defaultdict_append:
  "\<forall>item\<in>set d. snd item \<noteq> [] \<Longrightarrow> \<forall>item\<in>set (defaultdict_append d k v). snd item \<noteq> []"
  by (induction d k v rule: defaultdict_append.induct) auto

lemma fold_collect_array:
  "distinct (dict_keys d) \<Longrightarrow> \<forall>item\<in>set d. snd item \<noteq> [] \<Longrightarrow>
   (let d' = fold (\<lambda>occ. collect_array (fst occ) (snd occ)) occs d
    in distinct (dict_keys d') \<and> (\<forall>item\<in>set d'. snd item \<noteq> []) \<and>
       set (dict_keys d') = set (dict_keys d) \<union> (\<lambda>occ. sort (snd (snd occ))) ` set occs \<and>
       sum_list (map (\<lambda>item. length (snd item)) d') =
         sum_list (map (\<lambda>item. length (snd item)) d) + length occs)"
proof (induction occs arbitrary: d)
  case Nil
  then show ?case by simp
next
  case (Cons occ occs)
  let ?d1 = "collect_array (fst occ) (snd occ) d"
  have d1: "?d1 = defaultdict_append d (sort (snd (snd occ))) (fst occ, fst (snd occ))"
    by (simp add: collect_array_def)
  have a: "distinct (dict_keys ?d1)" unfolding d1 by (rule distinct_defaultdict_append[OF Cons.prems(1)])
  have b: "\<forall>item\<in>set ?d1. snd item \<noteq> []" unfolding d1
    by (rule nonempty_defaultdict_append[OF Cons.prems(2)])
  have k: "set (dict_keys ?d1) = insert (sort (snd (snd occ))) (set (dict_keys d))"
    unfolding d1 by (rule keys_defaultdict_append)
  have s: "sum_list (map (\<lambda>item. length (snd item)) ?d1) = Suc (sum_list (map (\<lambda>item. length (snd item)) d))"
    unfolding d1 by (rule sum_defaultdict_append)
  show ?case using Cons.IH[OF a b] by (simp add: Let_def k s)
qed

lemma collect_patterns_props:
  "distinct (dict_keys (collect_patterns zdds))"
  "\<forall>item\<in>set (collect_patterns zdds). snd item \<noteq> []"
  "set (dict_keys (collect_patterns zdds)) = sort ` all_arrays zdds"
  "sum_list (map (\<lambda>item. length (snd item)) (collect_patterns zdds)) = count_arrays zdds"
  using fold_collect_array[of "[]" "all_occurrences zdds"]
  by (simp_all add: collect_patterns_fold Let_def dict_keys_def patterns_all_occurrences
      length_all_occurrences)

lemma py_min_ok: "xs \<noteq> [] \<Longrightarrow> \<exists>m. py_min xs = Inr m"
  by (cases xs) simp_all

lemma pattern_row_ok:
  assumes "snd item \<noteq> []"
  shows "pattern_row item = Inr (pattern_cells item)"
    and "pattern_cells item ! 0 = CStr (array_text (fst item))"
    and "pattern_cells item ! 1 = CInt (int (length (snd item)))"
proof -
  have "set (sort (remdups (map fst (snd item)))) \<noteq> {}" using assms by simp
  then have "sort (remdups (map fst (snd item))) \<noteq> []" by (metis set_empty)
  then obtain m where m: "py_min (sort (remdups (map fst (snd item)))) = Inr m"
    using py_min_ok by blast
  have r: "pattern_row item =
        Inr [CStr (array_text (fst item)), CInt (int (length (snd item))),
             CStr (join '','' (map py_str (sort (remdups (map fst (snd item)))))),
             CInt m, CInt (int (length (fst item))), CInt (int (length (remdups (fst item))))]"
    by (simp add: pattern_row_def Let_def m)
  show "pattern_row item = Inr (pattern_cells item)" by (simp add: pattern_cells_def r)
  show "pattern_cells item ! 0 = CStr (array_text (fst item))" by (simp add: pattern_cells_def r)
  show "pattern_cells item ! 1 = CInt (int (length (snd item)))" by (simp add: pattern_cells_def r)
qed

lemma pattern_row_loop_eq:
  "\<forall>item\<in>set items. snd item \<noteq> [] \<Longrightarrow>
   pattern_row_loop items out = Inr (out @ map pattern_cells items)"
  by (induction items out rule: pattern_row_loop.induct) (simp_all add: pattern_row_ok(1))

lemma sorted_patterns_props:
  "set (sorted_patterns zdds) = set (collect_patterns zdds)"
  "length (sorted_patterns zdds) = length (collect_patterns zdds)"
  "mset (sorted_patterns zdds) = mset (collect_patterns zdds)"
  by (simp_all add: sorted_patterns_def)

lemma generate_pattern_analysis_csv_eq:
  "generate_pattern_analysis_csv zdds =
     Inr (pattern_header # map pattern_cells (sorted_patterns zdds))"
proof -
  have "\<forall>item\<in>set (sorted_patterns zdds). snd item \<noteq> []"
    using collect_patterns_props(2)[of zdds] by (simp add: sorted_patterns_props(1))
  then show ?thesis
    unfolding generate_pattern_analysis_csv_def sorted_patterns_def[symmetric]
    by (simp add: pattern_row_loop_eq)
qed

lemma pattern_cells_sorted:
  "map (\<lambda>row. row ! 0) (map pattern_cells (sorted_patterns zdds)) =
     map (\<lambda>item. CStr (array_text (fst item))) (sorted_patterns zdds)"
  "map (\<lambda>row. cell_int (row ! 1)) (map pattern_cells (sorted_patterns zdds)) =
     map (\<lambda>item. int (length (snd item))) (sorted_patterns zdds)"
proof -
  have ne: "\<And>item. item \<in> set (sorted_patterns zdds) \<Longrightarrow> snd item \<noteq> []"
    using collect_patterns_props(2)[of zdds] by (simp add: sorted_patterns_props(1))
  show "map (\<lambda>row. row ! 0) (map pattern_cells (sorted_patterns zdds)) =
     map (\<lambda>item. CStr (array_text (fst item))) (sorted_patterns zdds)"
    using ne by (simp add: pattern_row_ok(2))
  have c1: "\<And>item. item \<in> set (sorted_patterns zdds) \<Longrightarrow>
              cell_int (pattern_cells item ! 1) = int (length (snd item))"
  proof -
    fix item assume "item \<in> set (sorted_patterns zdds)"
    then have "pattern_cells item ! 1 = CInt (int (length (snd item)))"
      by (intro pattern_row_ok(3) ne)
    then show "cell_int (pattern_cells item ! 1) = int (length (snd item))"
      by (simp only: cell_int_def cell.case)
  qed
  have "map (\<lambda>row. cell_int (row ! 1)) (map pattern_cells (sorted_patterns zdds)) =
        map (\<lambda>item. cell_int (pattern_cells item ! 1)) (sorted_patterns zdds)"
    by (simp only: map_map comp_def)
  also have "\<dots> = map (\<lambda>item. int (length (snd item))) (sorted_patterns zdds)"
    by (rule map_cong[OF refl]) (rule c1)
  finally show "map (\<lambda>row. cell_int (row ! 1)) (map pattern_cells (sorted_patterns zdds)) =
     map (\<lambda>item. int (length (snd item))) (sorted_patterns zdds)" .
qed

lemma int_sum_list_map: "int (sum_list (map f xs)) = sum_list (map (\<lambda>x. int (f x)) xs)"
  by (induction xs) simp_all

lemma frequency_sum:
  "sum_list (map (\<lambda>item. int (length (snd item))) (sorted_patterns zdds)) = int (count_arrays zdds)"
proof -
  have "sum_mset (mset (map (\<lambda>item. int (length (snd item))) (sorted_patterns zdds))) =
        sum_mset (mset (map (\<lambda>item. int (length (snd item))) (collect_patterns zdds)))"
    by (simp add: sorted_patterns_props(3))
  then have "sum_list (map (\<lambda>item. int (length (snd item))) (sorted_patterns zdds)) =
        sum_list (map (\<lambda>item. int (length (snd item))) (collect_patterns zdds))"
    by (simp only: sum_mset_sum_list)
  also have "\<dots> = int (sum_list (map (\<lambda>item. length (snd item)) (collect_patterns zdds)))"
    by (rule int_sum_list_map[symmetric])
  finally show ?thesis by (simp add: collect_patterns_props(4))
qed

lemma sample_patterns:
  "generate_pattern_analysis_csv sample_zdds =
     Inr [pattern_header,
          [CStr ''[2,8]'', CInt 2, CStr ''1,2'', CInt 1, CInt 2, CInt 2],
          [CStr ''[]'', CInt 2, CStr ''1,2'', CInt 1, CInt 0, CInt 0],
          [CStr ''[5]'', CInt 1, CStr ''1'', CInt 1, CInt 1, CInt 1]]"
  by (simp add: generate_pattern_analysis_csv_def sample_zdds_def collect_patterns_def
      collect_array_def pattern_row_def Let_def csv_simps)

lemma zdd_rows_origin:
  assumes "row \<in> set (zdd_rows zdds k)"
  shows "\<exists>s i. map_of zdds k = Some s \<and> i < length (arrays s) \<and> arrays s ! i \<noteq> [] \<and>
               row ! 0 = CInt k \<and> row ! 3 = CInt (int i)"
proof (cases "map_of zdds k")
  case None
  with assms show ?thesis by (simp add: zdd_rows_def)
next
  case (Some s)
  with assms obtain ia where ia: "ia \<in> set (enumerate 0 (arrays s))" "row \<in> set (array_rows k s ia)"
    by (auto simp: zdd_rows_def)
  from ia(1) have i: "fst ia < length (arrays s)" "arrays s ! fst ia = snd ia"
    by (simp_all add: in_set_enumerate_eq)
  from ia(2) obtain pv where pv: "pv \<in> set (enumerate 0 (snd ia))"
    "row = complete_row k s (fst ia) (snd ia) (fst pv) (snd pv)"
    by (auto simp: array_rows_def)
  from pv(1) have "snd ia \<noteq> []" by auto
  moreover have "row ! 0 = CInt k" "row ! 3 = CInt (int (fst ia))"
    by (simp_all add: pv(2) complete_row_def)
  ultimately show ?thesis using Some i by auto
qed

lemma summary_rows_member:
  assumes "map_of zdds k = Some s" "i < length (arrays s)"
  shows "summary_cells k s (i, arrays s ! i) \<in> set (summary_rows zdds k)"
proof -
  have "(i, arrays s ! i) \<in> set (enumerate 0 (arrays s))"
    using assms(2) by (simp add: in_set_enumerate_eq)
  then show ?thesis using assms(1) by (simp add: summary_rows_def lookup_def)
qed

lemma map_of_key: "map_of d k = Some v \<Longrightarrow> k \<in> set (dict_keys d)"
  by (metis dict_keys_def map_of_eq_None_iff option.distinct(1) set_map)

lemma map_of_all_arrays:
  "map_of zdds k = Some s \<Longrightarrow> i < length (arrays s) \<Longrightarrow> arrays s ! i \<in> all_arrays zdds"
proof -
  assume a: "map_of zdds k = Some s" "i < length (arrays s)"
  then have "(k, s) \<in> set zdds" by (simp add: map_of_SomeD)
  then show ?thesis using a(2) unfolding all_arrays_def by force
qed

lemma pattern_first_cells:
  "(\<lambda>row. row ! 0) ` set (map pattern_cells (sorted_patterns zdds)) =
     (\<lambda>array. CStr (array_text (sort array))) ` all_arrays zdds"
proof -
  let ?data = "map pattern_cells (sorted_patterns zdds)"
  have "(\<lambda>row. row ! 0) ` set ?data = set (map (\<lambda>row. row ! 0) ?data)" by (simp only: set_map)
  also have "\<dots> = (\<lambda>item. CStr (array_text (fst item))) ` set (collect_patterns zdds)"
    by (simp only: pattern_cells_sorted(1) set_map sorted_patterns_props(1))
  also have "\<dots> = (\<lambda>p. CStr (array_text p)) ` set (dict_keys (collect_patterns zdds))"
    by (simp add: dict_keys_def image_image)
  also have "\<dots> = (\<lambda>array. CStr (array_text (sort array))) ` all_arrays zdds"
    by (simp add: collect_patterns_props(3) image_image)
  finally show ?thesis .
qed

text \<open>
  Claim C7. For a collection of loaded structures (a dictionary, so with distinct keys),
  the per-element export holds, below its header row, exactly one row for each element of
  each array of each structure: its data rows number the sum of all array lengths, which
  is also the element counter the function prints. The per-array summary holds, below its
  header, exactly one row per array.
\<close>

theorem csv_row_counts:
  assumes "distinct (dict_keys zdds)"
  shows "\<exists>data summary.
           generate_complete_csv zdds =
             Inr \<lparr>rows = complete_header # data, total_arrays = count_arrays zdds,
                  total_elements = count_elements zdds\<rparr> \<and>
           data = concat (map (zdd_rows zdds) (sort (dict_keys zdds))) \<and>
           length data = count_elements zdds \<and>
           generate_array_summary_csv zdds = Inr (summary_header # summary) \<and>
           summary = concat (map (summary_rows zdds) (sort (dict_keys zdds))) \<and>
           length summary = count_arrays zdds"
  using generate_complete_csv_eq[OF assms] length_complete_data[OF assms]
    generate_array_summary_csv_eq[of zdds] length_summary_data[OF assms]
  by simp

theorem csv_row_counts_witness:
  "distinct (dict_keys sample_zdds) \<and>
   (\<exists>data summary.
      generate_complete_csv sample_zdds =
        Inr \<lparr>rows = complete_header # data, total_arrays = 5, total_elements = 5\<rparr> \<and>
      length data = 5 \<and>
      generate_array_summary_csv sample_zdds = Inr (summary_header # summary) \<and>
      length summary = 5)"
proof -
  have d: "distinct (dict_keys sample_zdds)"
    by (simp add: sample_zdds_def dict_keys_def)
  have a: "count_arrays sample_zdds = 5" by (simp add: count_arrays_def sample_zdds_def)
  have e: "count_elements sample_zdds = 5" by (simp add: count_elements_def sample_zdds_def)
  show ?thesis using d csv_row_counts[OF d] unfolding a e by blast
qed

text \<open>
  Claim C9. \<^verbatim>\<open>generate_array_summary_csv\<close> never raises, whatever arrays the structures
  hold: for a zero-length array its row reports the length 0, the texts \<^verbatim>\<open>[]\<close>, and
  0 for \<^verbatim>\<open>unique_elements\<close>, \<^verbatim>\<open>min_element\<close> and \<^verbatim>\<open>max_element\<close>; the guard
  \<^verbatim>\<open>if array else 0\<close> keeps \<^verbatim>\<open>min\<close> and \<^verbatim>\<open>max\<close> away from the empty list.
\<close>

theorem summary_empty_array:
  "(\<exists>out. generate_array_summary_csv zdds = Inr out) \<and>
   summary_row zdd_id structure array_idx [] =
     Inr [CInt zdd_id, CStr (thesis_number_of zdd_id), CInt (magic_number structure),
          CInt (int array_idx), CInt 0, CStr ''[]'', CStr ''[]'', CInt 0, CInt 0, CInt 0]"
  by (simp add: generate_array_summary_csv_eq summary_row_empty)

text \<open>
  Claim C3. The pattern-frequency table has one row for each sorted tuple of an array of
  the collection, its first cell being that tuple as text, and the frequencies of its
  rows sum to the number of arrays of the collection.
\<close>

theorem pattern_frequency_table:
  "\<exists>data. generate_pattern_analysis_csv zdds = Inr (pattern_header # data) \<and>
      (\<lambda>row. row ! 0) ` set data = (\<lambda>array. CStr (array_text (sort array))) ` all_arrays zdds \<and>
      length data = card (sort ` all_arrays zdds) \<and>
      sum_list (map (\<lambda>row. cell_int (row ! 1)) data) = int (count_arrays zdds)"
proof -
  let ?data = "map pattern_cells (sorted_patterns zdds)"
  have 1: "generate_pattern_analysis_csv zdds = Inr (pattern_header # ?data)"
    by (rule generate_pattern_analysis_csv_eq)
  have 2: "(\<lambda>row. row ! 0) ` set ?data =
       (\<lambda>array. CStr (array_text (sort array))) ` all_arrays zdds"
    by (rule pattern_first_cells)
  have "length ?data = length (dict_keys (collect_patterns zdds))"
    by (simp add: sorted_patterns_props(2) dict_keys_def)
  also have "\<dots> = card (set (dict_keys (collect_patterns zdds)))"
    using collect_patterns_props(1)[of zdds] by (simp add: distinct_card)
  finally have 3: "length ?data = card (sort ` all_arrays zdds)"
    by (simp add: collect_patterns_props(3))
  have 4: "sum_list (map (\<lambda>row. cell_int (row ! 1)) ?data) = int (count_arrays zdds)"
    by (simp only: pattern_cells_sorted(2) frequency_sum)
  show ?thesis using 1 2 3 4 by blast
qed

text \<open>
  Claim C2, as the exporters behave. A zero-length array of a loaded structure is kept by
  the text export (its line is \<^verbatim>\<open>[]\<close>), by the per-array summary (one row, with length 0
  and the texts \<^verbatim>\<open>[]\<close>) and by the pattern table (a row for the empty tuple). The
  per-element export writes one row per element, so it has no row for that array.
\<close>

theorem empty_array_in_exports:
  assumes d: "distinct (dict_keys zdds)"
    and m: "map_of zdds zdd_id = Some structure"
    and i: "array_idx < length (arrays structure)"
    and e: "arrays structure ! array_idx = []"
    and op: "open_w e w output_file = None"
  shows "file_lines (content (snd (write_arrays_to_text e (arrays structure) output_file w))
           output_file) ! array_idx = ''[]'' \<and>
         (\<exists>out. generate_array_summary_csv zdds = Inr out \<and>
            [CInt zdd_id, CStr (thesis_number_of zdd_id), CInt (magic_number structure),
             CInt (int array_idx), CInt 0, CStr ''[]'', CStr ''[]'', CInt 0, CInt 0, CInt 0]
              \<in> set out) \<and>
         (\<exists>out row. generate_pattern_analysis_csv zdds = Inr out \<and> row \<in> set out \<and>
            row ! 0 = CStr ''[]'') \<and>
         (\<exists>st. generate_complete_csv zdds = Inr st \<and>
            (\<forall>row\<in>set (rows st). \<not> (row ! 0 = CInt zdd_id \<and> row ! 3 = CInt (int array_idx))))"
proof -
  \<comment> \<open>the text export\<close>
  obtain w' where r: "write_arrays_to_text e (arrays structure) output_file w = (Inr (), w')"
    using write_arrays_to_text_ok[OF op, of "arrays structure"]
    by (cases "write_arrays_to_text e (arrays structure) output_file w") auto
  have "file_lines (content w' output_file) = map array_text (arrays structure)"
    using write_arrays_to_text_content[OF op r] file_lines_array_texts by simp
  then have 1: "file_lines (content (snd (write_arrays_to_text e (arrays structure) output_file w))
           output_file) ! array_idx = ''[]''"
    using r i e by (simp add: array_text_def)
  \<comment> \<open>the summary export\<close>
  have k: "zdd_id \<in> set (sort (dict_keys zdds))" using map_of_key[OF m] by simp
  have "summary_cells zdd_id structure (array_idx, []) \<in> set (summary_rows zdds zdd_id)"
    using summary_rows_member[OF m i] e by simp
  moreover have "summary_cells zdd_id structure (array_idx, []) =
      [CInt zdd_id, CStr (thesis_number_of zdd_id), CInt (magic_number structure),
       CInt (int array_idx), CInt 0, CStr ''[]'', CStr ''[]'', CInt 0, CInt 0, CInt 0]"
    by (simp add: summary_cells_def summary_row_empty)
  ultimately have 2: "\<exists>out. generate_array_summary_csv zdds = Inr out \<and>
            [CInt zdd_id, CStr (thesis_number_of zdd_id), CInt (magic_number structure),
             CInt (int array_idx), CInt 0, CStr ''[]'', CStr ''[]'', CInt 0, CInt 0, CInt 0]
              \<in> set out"
    using k by (auto simp: generate_array_summary_csv_eq)
  \<comment> \<open>the pattern table\<close>
  define data where "data = map pattern_cells (sorted_patterns zdds)"
  have p: "generate_pattern_analysis_csv zdds = Inr (pattern_header # data)"
    "(\<lambda>row. row ! 0) ` set data = (\<lambda>array. CStr (array_text (sort array))) ` all_arrays zdds"
    unfolding data_def by (rule generate_pattern_analysis_csv_eq, rule pattern_first_cells)
  have "[] \<in> all_arrays zdds" using map_of_all_arrays[OF m i] e by simp
  then have "CStr ''[]'' \<in> (\<lambda>array. CStr (array_text (sort array))) ` all_arrays zdds"
    by (force simp: array_text_def)
  then obtain row where "row \<in> set data" "row ! 0 = CStr ''[]''"
    unfolding p(2)[symmetric] by auto
  then have 3: "\<exists>out row. generate_pattern_analysis_csv zdds = Inr out \<and> row \<in> set out \<and>
            row ! 0 = CStr ''[]''"
    using p(1) by auto
  \<comment> \<open>the per-element export\<close>
  have "\<forall>row\<in>set (complete_header # concat (map (zdd_rows zdds) (sort (dict_keys zdds)))).
          \<not> (row ! 0 = CInt zdd_id \<and> row ! 3 = CInt (int array_idx))"
  proof
    fix row assume "row \<in> set (complete_header # concat (map (zdd_rows zdds) (sort (dict_keys zdds))))"
    then consider "row = complete_header" | k where "row \<in> set (zdd_rows zdds k)" by auto
    then show "\<not> (row ! 0 = CInt zdd_id \<and> row ! 3 = CInt (int array_idx))"
    proof cases
      case 1
      then show ?thesis by (simp add: complete_header_def)
    next
      case 2
      then obtain s j where sj: "map_of zdds k = Some s" "j < length (arrays s)"
        "arrays s ! j \<noteq> []" "row ! 0 = CInt k" "row ! 3 = CInt (int j)"
        using zdd_rows_origin by blast
      show ?thesis
      proof
        assume "row ! 0 = CInt zdd_id \<and> row ! 3 = CInt (int array_idx)"
        with sj have "k = zdd_id" "j = array_idx" by simp_all
        with sj m e show False by simp
      qed
    qed
  qed
  then have 4: "\<exists>st. generate_complete_csv zdds = Inr st \<and>
            (\<forall>row\<in>set (rows st). \<not> (row ! 0 = CInt zdd_id \<and> row ! 3 = CInt (int array_idx)))"
    by (simp add: generate_complete_csv_eq[OF d])
  show ?thesis using 1 2 3 4 by blast
qed

theorem empty_array_in_exports_witness:
  "file_lines (content (snd (write_arrays_to_text sample_env [[2, 8], [], [5]] [''out.txt'']
      sample_world)) [''out.txt'']) ! 1 = ''[]'' \<and>
   (\<exists>out. generate_array_summary_csv sample_zdds = Inr out \<and>
      [CInt 1, CStr ''2020418'', CInt 7, CInt 1, CInt 0, CStr ''[]'', CStr ''[]'', CInt 0,
       CInt 0, CInt 0] \<in> set out)"
proof -
  have d: "distinct (dict_keys sample_zdds)"
    by (simp add: sample_zdds_def dict_keys_def)
  have m: "map_of sample_zdds 1 = Some \<lparr>magic_number = 7, arrays = [[2, 8], [], [5]]\<rparr>"
    by (simp add: sample_zdds_def)
  have i: "1 < length (arrays \<lparr>magic_number = 7, arrays = [[2, 8], [], [5]]\<rparr>)" by simp
  have e: "arrays \<lparr>magic_number = 7, arrays = [[2, 8], [], [5]]\<rparr> ! 1 = []" by simp
  have op: "open_w sample_env sample_world [''out.txt''] = None" by (simp add: sample_env_def)
  have t: "thesis_number_of 1 = ''2020418''"
    by (simp add: thesis_number_of_def dict_get_def thesis_mapping_def)
  show ?thesis using empty_array_in_exports[OF d m i e op] t by simp
qed

text \<open>
  Claim C2 as stated fails for the per-element export: for a structure whose only array
  is empty it writes the header alone, while counting one array.
\<close>

theorem per_element_csv_drops_empty_array:
  "generate_complete_csv [(1, \<lparr>magic_number = 7, arrays = [[]]\<rparr>)] =
     Inr \<lparr>rows = [complete_header], total_arrays = 1, total_elements = 0\<rparr>"
  by (simp add: generate_complete_csv_def csv_simps)

section \<open>The binary reader\<close>

lemma read_arrays_length:
  "read_arrays rd n bs = Some (arrs, rest) \<Longrightarrow> length arrs = n"
proof (induction n arbitrary: bs arrs rest)
  case 0
  then show ?case by simp
next
  case (Suc n)
  then show ?case
    by (auto split: option.splits prod.splits if_splits)
qed

text \<open>
  Claim C6. Whenever the reader accepts a file, the structure it returns has as many
  arrays as the count field of the header declares. (The reader is the one modelled from
  the spec, for any layout of the integer fields.)
\<close>

theorem decoded_count_is_header_count:
  assumes "zdd_load rd bs = Inr structure"
  shows "header_count rd bs = Some (int (length (arrays structure)))"
proof -
  from assms obtain magic bs1 where 1: "rd bs = Some (magic, bs1)"
    by (auto simp: zdd_load_def split: option.splits)
  from assms 1 obtain declared bs2 where 2: "rd bs1 = Some (declared, bs2)"
    by (auto simp: zdd_load_def split: option.splits)
  from assms 1 2 have nn: "\<not> declared < 0"
    by (auto simp: zdd_load_def split: if_splits)
  from assms 1 2 nn obtain arrs rest where 3: "read_arrays rd (nat declared) bs2 = Some (arrs, rest)"
    by (auto simp: zdd_load_def split: option.splits)
  from assms 1 2 nn 3 have "arrays structure = arrs" by (auto simp: zdd_load_def)
  moreover have "length arrs = nat declared" by (rule read_arrays_length[OF 3])
  ultimately show ?thesis using 1 2 nn by (simp add: header_count_def)
qed

lemma sample_load:
  "zdd_load read_u32le sample_bytes = Inr \<lparr>magic_number = 7, arrays = [[298], []]\<rparr>"
  by (simp add: zdd_load_def sample_bytes_def read_u32le_def numeral_2_eq_2)

theorem decoded_count_is_header_count_witness:
  "zdd_load read_u32le sample_bytes = Inr \<lparr>magic_number = 7, arrays = [[298], []]\<rparr> \<and>
   header_count read_u32le sample_bytes = Some 2"
  using sample_load decoded_count_is_header_count[OF sample_load] by simp

section \<open>Inter-rater agreement\<close>

lemma set_common_clauses:
  "set (common_clauses eval1 eval2) = set (dict_keys eval1) \<inter> set (dict_keys eval2)"
  by (auto simp: common_clauses_def)

lemma rating_loop_eq:
  "set ks \<subseteq> set (dict_keys eval1) \<inter> set (dict_keys eval2) \<Longrightarrow>
   rating_loop eval1 eval2 ks acc =
     Inr (fst acc @ map (rating_of eval1) (filter (rated eval1 eval2) ks),
          snd acc @ map (rating_of eval2) (filter (rated eval1 eval2) ks))"
proof (induction ks arbitrary: acc)
  case Nil
  then show ?case by simp
next
  case (Cons k ks)
  obtain e1 where e1: "dict_getitem eval1 k = Inr e1" "map_of eval1 k = Some e1"
    using dict_getitem_key[of k eval1] Cons.prems by auto
  obtain e2 where e2: "dict_getitem eval2 k = Inr e2" "map_of eval2 k = Some e2"
    using dict_getitem_key[of k eval2] Cons.prems by auto
  have ks: "set ks \<subseteq> set (dict_keys eval1) \<inter> set (dict_keys eval2)" using Cons.prems by simp
  show ?case
    by (simp add: e1 e2 Cons.IH[OF ks] rated_def rating_of_def Let_def)
qed

text \<open>
  Claim C8. Let \<open>cs\<close> be the clause ids that are keys of both evaluations and have a
  non-empty rating in each, in sorted order. \<^verbatim>\<open>compute_cohens_kappa\<close> returns
  \<^verbatim>\<open>(None, [], [])\<close> exactly when \<open>cs\<close> is empty; otherwise it returns the score of the two
  rating lists along \<open>cs\<close>, with those two lists, which have the same length.
\<close>

theorem kappa_commonly_rated:
  fixes eval1 eval2 :: "('k::linorder, 'a evaluation_scheme) dict"
  shows "\<exists>cs. sorted cs \<and> distinct cs \<and>
           set cs = {k. k \<in> set (dict_keys eval1) \<and> k \<in> set (dict_keys eval2) \<and>
                        rating_of eval1 k \<noteq> [] \<and> rating_of eval2 k \<noteq> []} \<and>
           length (map (rating_of eval1) cs) = length (map (rating_of eval2) cs) \<and>
           (compute_cohens_kappa score eval1 eval2 = Inr (None, [], []) \<longleftrightarrow> cs = []) \<and>
           compute_cohens_kappa score eval1 eval2 =
             (if cs = [] then Inr (None, [], [])
              else Inr (Some (score (map (rating_of eval1) cs) (map (rating_of eval2) cs)),
                        map (rating_of eval1) cs, map (rating_of eval2) cs))"
proof -
  let ?common = "common_clauses eval1 eval2"
  let ?cs = "filter (rated eval1 eval2) (sort ?common)"
  have s: "sorted ?cs" by (simp add: sorted_wrt_filter)
  have d: "distinct ?cs" by (simp add: common_clauses_def)
  have st: "set ?cs = {k. k \<in> set (dict_keys eval1) \<and> k \<in> set (dict_keys eval2) \<and>
                        rating_of eval1 k \<noteq> [] \<and> rating_of eval2 k \<noteq> []}"
    by (auto simp: set_common_clauses rated_def)
  have sub: "set (sort ?common) \<subseteq> set (dict_keys eval1) \<inter> set (dict_keys eval2)"
    by (simp add: set_common_clauses)
  have loop: "rating_loop eval1 eval2 (sort ?common) ([], []) =
        Inr (map (rating_of eval1) ?cs, map (rating_of eval2) ?cs)"
    using rating_loop_eq[OF sub, of "([], [])"] by simp
  have empty: "?common = [] \<Longrightarrow> ?cs = []" by simp
  have r: "compute_cohens_kappa score eval1 eval2 =
             (if ?cs = [] then Inr (None, [], [])
              else Inr (Some (score (map (rating_of eval1) ?cs) (map (rating_of eval2) ?cs)),
                        map (rating_of eval1) ?cs, map (rating_of eval2) ?cs))"
  proof (cases "?common = []")
    case True
    then show ?thesis using empty by (simp add: compute_cohens_kappa_def)
  next
    case False
    then show ?thesis by (simp add: compute_cohens_kappa_def loop Let_def)
  qed
  have iff: "compute_cohens_kappa score eval1 eval2 = Inr (None, [], []) \<longleftrightarrow> ?cs = []"
    by (simp add: r)
  show ?thesis
    by (rule exI[of _ ?cs]) (use s d st iff r in simp)
qed

text \<open>Two runs: one with two commonly rated clauses, one with none.\<close>

lemma kappa_example:
  "compute_cohens_kappa score sample_eval1 sample_eval2 =
     Inr (Some (score [''accept'', ''reject''] [''revise'', ''reject'']),
          [''accept'', ''reject''], [''revise'', ''reject''])"
  by (simp add: compute_cohens_kappa_def common_clauses_def dict_keys_def dict_getitem_def
      sample_eval1_def sample_eval2_def Let_def)

lemma kappa_example_unrated:
  "compute_cohens_kappa score [(2 :: nat, \<lparr>rating = [], justification = [], thesis_id = [], thesis_title = []\<rparr>)]
      sample_eval2 = Inr (None, [], [])"
  by (simp add: compute_cohens_kappa_def common_clauses_def dict_keys_def dict_getitem_def
      sample_eval2_def Let_def)

section \<open>The batch index\<close>

lemma map_of_dict_setitem:
  "map_of (dict_setitem d k v) = (map_of d)(k \<mapsto> v)"
  by (induction d k v rule: dict_setitem.induct) (auto simp: fun_eq_iff)

lemma length_update_status: "length (update_status n ev bs) = length bs"
  by (induction bs) simp_all

lemma first_entry_simps:
  "first_entry n (b # bs) 0 = (batch_number b = n)"
  "first_entry n (b # bs) (Suc i) = (batch_number b \<noteq> n \<and> first_entry n bs i)"
  by (auto simp: first_entry_def)

lemma update_status_nth:
  "i < length bs \<Longrightarrow>
   update_status n ev bs ! i =
     (if first_entry n bs i
      then (bs ! i)\<lparr>status := dict_setitem (status (bs ! i)) ev ''completed''\<rparr>
      else bs ! i)"
proof (induction bs arbitrary: i)
  case Nil
  then show ?case by simp
next
  case (Cons b bs)
  show ?case
  proof (cases i)
    case 0
    then show ?thesis by (simp add: first_entry_simps)
  next
    case (Suc i')
    with Cons.prems have i': "i' < length bs" by simp
    show ?thesis using Suc Cons.IH[OF i'] by (simp add: first_entry_simps)
  qed
qed

text \<open>
  Claim C10. \<^verbatim>\<open>save_batch\<close> changes the batch index at one place only: in the first entry
  with the saved batch number, the status of the given evaluator becomes \<^verbatim>\<open>completed\<close>.
  The totals, the number and order of the entries, every other entry, and in the saved
  entry its number, its thesis ids, the statuses of the other evaluators and every
  further field, stay as they were.
\<close>

theorem save_batch_frame:
  fixes m :: "('e, 'i, 'd) manager"
  assumes "save_batch data evaluator_name m = (out, m')"
  shows "total_batches (index m') = total_batches (index m) \<and>
         total_theses (index m') = total_theses (index m) \<and>
         batch_index.more (index m') = batch_index.more (index m) \<and>
         length (batches (index m')) = length (batches (index m)) \<and>
         (\<forall>i<length (batches (index m)).
            batches (index m') ! i =
              (if first_entry (data_batch_number data) (batches (index m)) i
               then (batches (index m) ! i)\<lparr>status :=
                      dict_setitem (status (batches (index m) ! i)) evaluator_name ''completed''\<rparr>
               else batches (index m) ! i)) \<and>
         (\<forall>i<length (batches (index m)).
            batch_number (batches (index m') ! i) = batch_number (batches (index m) ! i) \<and>
            thesis_ids (batches (index m') ! i) = thesis_ids (batches (index m) ! i) \<and>
            batch_entry.more (batches (index m') ! i) = batch_entry.more (batches (index m) ! i) \<and>
            (\<forall>other. other \<noteq> evaluator_name \<longrightarrow>
               map_of (status (batches (index m') ! i)) other =
               map_of (status (batches (index m) ! i)) other) \<and>
            (first_entry (data_batch_number data) (batches (index m)) i \<longrightarrow>
               map_of (status (batches (index m') ! i)) evaluator_name = Some ''completed''))"
proof -
  let ?n = "data_batch_number data"
  have idx: "index m' = (index m)\<lparr>batches := update_status ?n evaluator_name (batches (index m))\<rparr>"
    using assms by (auto simp: save_batch_def save_index_def Let_def)
  have nth: "\<And>i. i < length (batches (index m)) \<Longrightarrow>
      batches (index m') ! i =
        (if first_entry ?n (batches (index m)) i
         then (batches (index m) ! i)\<lparr>status :=
                dict_setitem (status (batches (index m) ! i)) evaluator_name ''completed''\<rparr>
         else batches (index m) ! i)"
    unfolding idx by (simp add: update_status_nth)
  have 1: "total_batches (index m') = total_batches (index m) \<and>
         total_theses (index m') = total_theses (index m) \<and>
         batch_index.more (index m') = batch_index.more (index m) \<and>
         length (batches (index m')) = length (batches (index m))"
    by (simp add: idx length_update_status)
  have 2: "\<forall>i<length (batches (index m)).
            batch_number (batches (index m') ! i) = batch_number (batches (index m) ! i) \<and>
            thesis_ids (batches (index m') ! i) = thesis_ids (batches (index m) ! i) \<and>
            batch_entry.more (batches (index m') ! i) = batch_entry.more (batches (index m) ! i) \<and>
            (\<forall>other. other \<noteq> evaluator_name \<longrightarrow>
               map_of (status (batches (index m') ! i)) other =
               map_of (status (batches (index m) ! i)) other) \<and>
            (first_entry ?n (batches (index m)) i \<longrightarrow>
               map_of (status (batches (index m') ! i)) evaluator_name = Some ''completed'')"
  proof (intro allI impI)
    fix i assume i: "i < length (batches (index m))"
    show "batch_number (batches (index m') ! i) = batch_number (batches (index m) ! i) \<and>
            thesis_ids (batches (index m') ! i) = thesis_ids (batches (index m) ! i) \<and>
            batch_entry.more (batches (index m') ! i) = batch_entry.more (batches (index m) ! i) \<and>
            (\<forall>other. other \<noteq> evaluator_name \<longrightarrow>
               map_of (status (batches (index m') ! i)) other =
               map_of (status (batches (index m) ! i)) other) \<and>
            (first_entry ?n (batches (index m)) i \<longrightarrow>
               map_of (status (batches (index m') ! i)) evaluator_name = Some ''completed'')"
      unfolding nth[OF i] by (simp add: map_of_dict_setitem)
  qed
  show ?thesis using 1 2 nth by simp
qed

theorem save_batch_frame_witness:
  "batches (index (snd (save_batch sample_data ''evaluator_1'' sample_manager))) ! 0 =
     batches (index sample_manager) ! 0 \<and>
   batches (index (snd (save_batch sample_data ''evaluator_1'' sample_manager))) ! 1 =
     \<lparr>batch_number = 2, thesis_ids = [''2021398''],
      status = [(''evaluator_1'', ''completed''), (''evaluator_2'', ''pending'')]\<rparr>"
proof -
  obtain out m' where r: "save_batch sample_data ''evaluator_1'' sample_manager = (out, m')"
    by (meson surj_pair)
  have l: "length (batches (index sample_manager)) = 2"
    by (simp add: sample_manager_def sample_index_def)
  have f0: "\<not> first_entry (data_batch_number sample_data) (batches (index sample_manager)) 0"
    by (simp add: first_entry_def sample_manager_def sample_index_def sample_data_def)
  have f1: "first_entry (data_batch_number sample_data) (batches (index sample_manager)) 1"
    by (simp add: first_entry_def sample_manager_def sample_index_def sample_data_def)
  have b1: "batches (index sample_manager) ! 1 =
     \<lparr>batch_number = 2, thesis_ids = [''2021398''],
      status = [(''evaluator_1'', ''pending''), (''evaluator_2'', ''pending'')]\<rparr>"
    by (simp add: sample_manager_def sample_index_def)
  from save_batch_frame[OF r] have
    "\<forall>i<length (batches (index sample_manager)).
        batches (index m') ! i =
          (if first_entry (data_batch_number sample_data) (batches (index sample_manager)) i
           then (batches (index sample_manager) ! i)\<lparr>status :=
                  dict_setitem (status (batches (index sample_manager) ! i)) ''evaluator_1''
                    ''completed''\<rparr>
           else batches (index sample_manager) ! i)"
    by blast
  then have "batches (index m') ! 0 = batches (index sample_manager) ! 0"
    and "batches (index m') ! 1 =
          (batches (index sample_manager) ! 1)\<lparr>status :=
             dict_setitem (status (batches (index sample_manager) ! 1)) ''evaluator_1''
               ''completed''\<rparr>"
    using l f0 f1 by simp_all
  then show ?thesis using r b1 by simp
qed

end
